theory Spec2Isabelle
  imports Main "HOL-Library.Sublist"
begin

section \<open>Values of the parsed YAML document\<close>

text \<open>
  Two runners are modelled: the status-aware one (\<^verbatim>\<open>runSpec\<close>, \<^verbatim>\<open>executeStep\<close> and
  \<^verbatim>\<open>main\<close> with the draft and active buckets) and the single-spec one of run-spec.js,
  whose definitions carry the prefix \<open>simple_\<close>.

  The runners work on whatever \<^verbatim>\<open>yaml.parse\<close> returns. A value is modelled as the
  JavaScript value it is: an object is the list of its own entries, in the order in which
  \<^verbatim>\<open>Object.entries\<close> lists them. Numbers are the integers that a JavaScript number
  holds exactly and prints in plain decimal digits. A string is the list of its code
  units, each of which the type \<open>char\<close> keeps below 256: \<open>CHR 0xDC\<close> is U+00DC.
\<close>

datatype jsval =
    Undefined
  | Null
  | Bool bool
  | Num int
  | Str string
  | Arr "jsval list"
  | Obj "(string \<times> jsval) list"

text \<open>What a \<^verbatim>\<open>throw\<close> carries: a \<^verbatim>\<open>TypeError\<close> of the language, an
  \<^verbatim>\<open>Error\<close> made by the runner with its message, or a rejection that comes from a
  collaborator (file system, parser, browser engine).\<close>

datatype error =
    TypeError
  | Error string
  | External string

text \<open>\<^verbatim>\<open>typeof v === 'string'\<close> and the truthiness used by \<^verbatim>\<open>||\<close>.\<close>

fun isString :: "jsval \<Rightarrow> bool" where
  "isString (Str s) = True"
| "isString v = False"

fun truthy :: "jsval \<Rightarrow> bool" where
  "truthy Undefined = False"
| "truthy Null = False"
| "truthy (Bool b) = b"
| "truthy (Num n) = (n \<noteq> 0)"
| "truthy (Str s) = (s \<noteq> [])"
| "truthy (Arr xs) = True"
| "truthy (Obj kvs) = True"

text \<open>Property read \<^verbatim>\<open>v.k\<close> for the keys the runner reads (\<^verbatim>\<open>status\<close>,
  \<^verbatim>\<open>feature\<close>, \<^verbatim>\<open>scenarios\<close>, \<^verbatim>\<open>name\<close>, \<^verbatim>\<open>steps\<close>,
  \<^verbatim>\<open>selector\<close>, \<^verbatim>\<open>value\<close>, \<^verbatim>\<open>label\<close>, \<^verbatim>\<open>option\<close>): it throws on
  \<^verbatim>\<open>undefined\<close> and \<^verbatim>\<open>null\<close>, reads an object's own entry, and is
  \<^verbatim>\<open>undefined\<close> everywhere else.\<close>

fun getProp :: "jsval \<Rightarrow> string \<Rightarrow> error + jsval" where
  "getProp Undefined k = Inl TypeError"
| "getProp Null k = Inl TypeError"
| "getProp (Obj kvs) k = (case map_of kvs k of None \<Rightarrow> Inr Undefined | Some v \<Rightarrow> Inr v)"
| "getProp v k = Inr Undefined"

text \<open>\<^verbatim>\<open>Object.entries(step)[0]\<close> followed by the array destructuring
  \<^verbatim>\<open>const [action, value] = ...\<close>, which throws when there is no first entry.\<close>

fun firstEntry :: "jsval \<Rightarrow> error + (string \<times> jsval)" where
  "firstEntry Undefined = Inl TypeError"
| "firstEntry Null = Inl TypeError"
| "firstEntry (Bool b) = Inl TypeError"
| "firstEntry (Num n) = Inl TypeError"
| "firstEntry (Str []) = Inl TypeError"
| "firstEntry (Str (c # cs)) = Inr (''0'', Str [c])"
| "firstEntry (Arr []) = Inl TypeError"
| "firstEntry (Arr (x # xs)) = Inr (''0'', x)"
| "firstEntry (Obj []) = Inl TypeError"
| "firstEntry (Obj (kv # kvs)) = Inr kv"

text \<open>What \<^verbatim>\<open>for (const x of v)\<close> iterates over; it throws when \<^verbatim>\<open>v\<close> is not
  iterable.\<close>

fun iterate :: "jsval \<Rightarrow> error + jsval list" where
  "iterate (Arr xs) = Inr xs"
| "iterate (Str s) = Inr (map (\<lambda>c. Str [c]) s)"
| "iterate v = Inl TypeError"

subsection \<open>Strings\<close>

definition digit :: "nat \<Rightarrow> char" where
  "digit d = char_of (48 + d)"

fun showNat :: "nat \<Rightarrow> string" where
  "showNat n = (if n < 10 then [digit n] else showNat (n div 10) @ [digit (n mod 10)])"

definition showInt :: "int \<Rightarrow> string" where
  "showInt i = (if i < 0 then CHR ''-'' # showNat (nat (- i)) else showNat (nat i))"

fun intercalate :: "string \<Rightarrow> string list \<Rightarrow> string" where
  "intercalate sep [] = []"
| "intercalate sep [x] = x"
| "intercalate sep (x # y # ys) = x @ sep @ intercalate sep (y # ys)"

text \<open>The conversion to a string made by a template literal and by the string methods:
  \<^verbatim>\<open>None\<close> is the \<^verbatim>\<open>TypeError\<close> of an object whose own \<^verbatim>\<open>toString\<close> entry
  hides the inherited method.\<close>

fun toStr :: "jsval \<Rightarrow> string option" where
  "toStr Undefined = Some ''undefined''"
| "toStr Null = Some ''null''"
| "toStr (Bool b) = Some (if b then ''true'' else ''false'')"
| "toStr (Num n) = Some (showInt n)"
| "toStr (Str s) = Some s"
| "toStr (Arr xs) =
     map_option (intercalate '','')
       (those (map (\<lambda>x. if x = Undefined \<or> x = Null then Some [] else toStr x) xs))"
| "toStr (Obj kvs) =
     (if ''toString'' \<in> fst ` set kvs then None else Some ''[object Object]'')"

text \<open>\<^verbatim>\<open>String.prototype.includes\<close>: some position of the receiver starts with the
  argument.\<close>

fun str_includes :: "string \<Rightarrow> string \<Rightarrow> bool" where
  "str_includes [] t = (t = [])"
| "str_includes (c # cs) t = (take (length t) (c # cs) = t \<or> str_includes cs t)"

text \<open>\<^verbatim>\<open>toLowerCase\<close> on code units below 256: the letters A to Z and U+00C0 to U+00DE
  without the multiplication sign U+00D7 move up by 32, everything else stays.
  \<^verbatim>\<open>toUpperCase\<close>, which only shapes the header line written to the console, is taken
  on the letters a to z.\<close>

definition toUpperChar :: "char \<Rightarrow> char" where
  "toUpperChar c =
     (let n = (of_char c :: nat) in if 97 \<le> n \<and> n \<le> 122 then char_of (n - 32) else c)"

definition toLowerChar :: "char \<Rightarrow> char" where
  "toLowerChar c =
     (let n = (of_char c :: nat)
      in if (65 \<le> n \<and> n \<le> 90) \<or> (192 \<le> n \<and> n \<le> 222 \<and> n \<noteq> 215)
         then char_of (n + 32) else c)"

definition toUpperCase :: "string \<Rightarrow> string" where
  "toUpperCase s = map toUpperChar s"

definition toLowerCase :: "string \<Rightarrow> string" where
  "toLowerCase s = map toLowerChar s"

text \<open>The class \<^verbatim>\<open>\s\<close> on code units below 256: tab, line feed, vertical tab, form
  feed, carriage return, space and the no-break space U+00A0.\<close>

definition isSpace :: "char \<Rightarrow> bool" where
  "isSpace c = ((of_char c :: nat) \<in> {9, 10, 11, 12, 13, 32, 160})"

text \<open>\<^verbatim>\<open>s.replace(/\s+/g, '-')\<close>: every maximal run of white space becomes one
  hyphen.\<close>

function replaceSpaces :: "string \<Rightarrow> string" where
  "replaceSpaces [] = []"
| "replaceSpaces (c # cs) =
     (if isSpace c then CHR ''-'' # replaceSpaces (dropWhile isSpace cs)
      else c # replaceSpaces cs)"
  by pat_completeness auto
termination
  by (relation "measure length") (auto simp: le_imp_less_Suc length_dropWhile_le)

section \<open>The collaborators\<close>

text \<open>The calls the runner makes on the browser engine and on the file system. A
  locator and the method called on it are one call.\<close>

datatype call =
    Launch bool
  | NewPage
  | BrowserClose
  | MkdirSync string
  | Goto jsval
  | TextClick jsval
  | PageClick jsval
  | RoleClick string jsval
  | PageFill jsval jsval
  | LabelFill jsval jsval
  | LabelSelectOption jsval jsval
  | LabelCheck jsval
  | LabelUncheck jsval
  | TextHover jsval
  | KeyboardPress jsval
  | WaitForTimeout jsval
  | TextWaitFor jsval string nat
  | RoleIsDisabled string jsval
  | RoleIsEnabled string jsval
  | PageScreenshot string bool
  | PageContent

text \<open>
  The environment of one invocation, over a state \<open>'w\<close> of everything outside the
  runner (browser, pages, servers, disk). \<open>readParse\<close> is \<^verbatim>\<open>fs.readFileSync\<close>
  followed by \<^verbatim>\<open>yaml.parse\<close>; \<open>perform\<close> runs a call and says whether it rejected;
  \<open>ask\<close> runs one of the two queries that answer with a boolean, \<open>fetch\<close> the one
  that answers with a string; the
  \<open>path_\<close> fields are the functions of Node's \<^verbatim>\<open>path\<close> module; \<open>env_CI\<close> is the
  environment variable \<^verbatim>\<open>CI\<close>.
\<close>

record 'w env =
  readParse :: "string \<Rightarrow> 'w \<Rightarrow> error + jsval"
  perform :: "call \<Rightarrow> 'w \<Rightarrow> error option \<times> 'w"
  ask :: "call \<Rightarrow> 'w \<Rightarrow> (error + bool) \<times> 'w"
  fetch :: "call \<Rightarrow> 'w \<Rightarrow> (error + string) \<times> 'w"
  pageUrl :: "'w \<Rightarrow> string"
  existsSync :: "string \<Rightarrow> 'w \<Rightarrow> bool"
  cwd :: string
  env_CI :: "string option"
  path_join :: "string list \<Rightarrow> string"
  path_dirname :: "string \<Rightarrow> string"
  path_basename :: "string \<Rightarrow> string \<Rightarrow> string"
  path_resolve :: "string \<Rightarrow> string"

record counts =
  passed :: nat
  failed :: nat

record results =
  active :: counts
  draft :: counts

record specResult =
  r_passed :: nat
  r_failed :: nat
  r_status :: string

text \<open>What the run leaves behind, in order: the lines written to the console (by what
  they report, not by their layout) and the calls made, each with its outcome.\<close>

datatype logline =
    LogHeader string string
  | LogScenario string
  | LogStep string jsval
  | LogPassed
  | LogFailed error
  | LogScreenshot string
  | LogErrorRunning string error
  | LogUsage
  | LogSummary results
  | LogBuildFailed
  | LogDraftPending
  | LogAllPassed
  | LogRunning string
  | LogResults nat nat
  | LogError error

datatype event =
    Log logline
  | Call call "error option"
  | Ask call "error + bool"
  | Fetch call "error + string"

record 'w state =
  world :: 'w
  trace :: "event list"

section \<open>Control flow: results, exceptions, state\<close>

type_synonym ('w, 'a) run = "'w state \<Rightarrow> (error + 'a) \<times> 'w state"

definition ret :: "'a \<Rightarrow> ('w, 'a) run" where
  "ret x s = (Inr x, s)"

definition throw :: "error \<Rightarrow> ('w, 'a) run" where
  "throw e s = (Inl e, s)"

definition bnd :: "('w, 'a) run \<Rightarrow> ('a \<Rightarrow> ('w, 'b) run) \<Rightarrow> ('w, 'b) run" where
  "bnd m f s = (case m s of (Inl e, s') \<Rightarrow> (Inl e, s') | (Inr x, s') \<Rightarrow> f x s')"

definition try_catch :: "('w, 'a) run \<Rightarrow> (error \<Rightarrow> ('w, 'a) run) \<Rightarrow> ('w, 'a) run" where
  "try_catch m h s = (case m s of (Inl e, s') \<Rightarrow> h e s' | (Inr x, s') \<Rightarrow> (Inr x, s'))"

definition lift :: "error + 'a \<Rightarrow> ('w, 'a) run" where
  "lift r s = (r, s)"

definition template :: "jsval \<Rightarrow> ('w, string) run" where
  "template v = (case toStr v of None \<Rightarrow> throw TypeError | Some t \<Rightarrow> ret t)"

definition log :: "logline \<Rightarrow> ('w, unit) run" where
  "log l s = (Inr (), s\<lparr>trace := trace s @ [Log l]\<rparr>)"

definition do_call :: "'w env \<Rightarrow> call \<Rightarrow> ('w, unit) run" where
  "do_call E c s =
     (case perform E c (world s) of
        (r, w') \<Rightarrow>
          ((case r of None \<Rightarrow> Inr () | Some e \<Rightarrow> Inl e),
           \<lparr>world = w', trace = trace s @ [Call c r]\<rparr>))"

definition do_ask :: "'w env \<Rightarrow> call \<Rightarrow> ('w, bool) run" where
  "do_ask E c s =
     (case ask E c (world s) of
        (r, w') \<Rightarrow> (r, \<lparr>world = w', trace = trace s @ [Ask c r]\<rparr>))"

definition do_fetch :: "'w env \<Rightarrow> call \<Rightarrow> ('w, string) run" where
  "do_fetch E c s =
     (case fetch E c (world s) of
        (r, w') \<Rightarrow> (r, \<lparr>world = w', trace = trace s @ [Fetch c r]\<rparr>))"

text \<open>\<^verbatim>\<open>page.url()\<close>, and \<^verbatim>\<open>fs.readFileSync\<close> with \<^verbatim>\<open>yaml.parse\<close>.\<close>

definition page_url :: "'w env \<Rightarrow> ('w, string) run" where
  "page_url E s = (Inr (pageUrl E (world s)), s)"

definition loadSpec :: "'w env \<Rightarrow> string \<Rightarrow> ('w, jsval) run" where
  "loadSpec E specPath s = (readParse E specPath (world s), s)"

text \<open>\<^verbatim>\<open>if (!fs.existsSync(dir)) fs.mkdirSync(dir, { recursive: true })\<close>\<close>

definition ensureDir :: "'w env \<Rightarrow> string \<Rightarrow> ('w, unit) run" where
  "ensureDir E dir s =
     (if existsSync E dir (world s) then ret () s else do_call E (MkdirSync dir) s)"

section \<open>executeStep\<close>

definition supported_actions :: "string list" where
  "supported_actions =
     [''goto'', ''click'', ''click_button'', ''click_link'', ''fill'', ''fill_field'',
      ''select'', ''check'', ''uncheck'', ''hover'', ''press'', ''wait'', ''wait_for'',
      ''assert_visible'', ''assert_hidden'', ''assert_url'', ''assert_enabled'',
      ''assert_disabled'', ''screenshot'']"

definition dispatch :: "'w env \<Rightarrow> string \<Rightarrow> jsval \<Rightarrow> ('w, unit) run" where
  "dispatch E action v =
    (if action = ''goto'' then do_call E (Goto v)
     else if action = ''click'' then
       (if isString v then do_call E (TextClick v)
        else bnd (lift (getProp v ''selector'')) (\<lambda>sel. do_call E (PageClick sel)))
     else if action = ''click_button'' then do_call E (RoleClick ''button'' v)
     else if action = ''click_link'' then do_call E (RoleClick ''link'' v)
     else if action = ''fill'' then
       bnd (lift (getProp v ''selector'')) (\<lambda>sel.
       bnd (lift (getProp v ''value'')) (\<lambda>x. do_call E (PageFill sel x)))
     else if action = ''fill_field'' then
       bnd (lift (getProp v ''label'')) (\<lambda>l.
       bnd (lift (getProp v ''value'')) (\<lambda>x. do_call E (LabelFill l x)))
     else if action = ''select'' then
       bnd (lift (getProp v ''label'')) (\<lambda>l.
       bnd (lift (getProp v ''option'')) (\<lambda>x. do_call E (LabelSelectOption l x)))
     else if action = ''check'' then do_call E (LabelCheck v)
     else if action = ''uncheck'' then do_call E (LabelUncheck v)
     else if action = ''hover'' then do_call E (TextHover v)
     else if action = ''press'' then do_call E (KeyboardPress v)
     else if action = ''wait'' then do_call E (WaitForTimeout v)
     else if action = ''wait_for'' then do_call E (TextWaitFor v ''visible'' 10000)
     else if action = ''assert_visible'' then do_call E (TextWaitFor v ''visible'' 5000)
     else if action = ''assert_hidden'' then do_call E (TextWaitFor v ''hidden'' 5000)
     else if action = ''assert_url'' then
       bnd (page_url E) (\<lambda>url.
       bnd (template v) (\<lambda>t.
         if \<not> str_includes url t
         then throw (Error (''URL \"'' @ url @ ''\" does not contain \"'' @ t @ ''\"''))
         else ret ()))
     else if action = ''assert_enabled'' then
       bnd (do_ask E (RoleIsDisabled ''button'' v)) (\<lambda>b.
         if b then bnd (template v) (\<lambda>t. throw (Error (''Button \"'' @ t @ ''\" is disabled'')))
         else ret ())
     else if action = ''assert_disabled'' then
       bnd (do_ask E (RoleIsEnabled ''button'' v)) (\<lambda>b.
         if b then bnd (template v) (\<lambda>t. throw (Error (''Button \"'' @ t @ ''\" is enabled'')))
         else ret ())
     else if action = ''screenshot'' then
       (let dir = path_join E [cwd E, ''screenshots''] in
        bnd (ensureDir E dir) (\<lambda>_.
        bnd (template v) (\<lambda>t.
          do_call E (PageScreenshot (path_join E [dir, t @ ''.png'']) True))))
     else throw (Error (''Unknown action: '' @ action)))"

definition executeStep :: "'w env \<Rightarrow> jsval \<Rightarrow> ('w, unit) run" where
  "executeStep E step =
     bnd (lift (firstEntry step)) (\<lambda>(action, v).
     bnd (log (LogStep action v)) (\<lambda>_. dispatch E action v))"

section \<open>runSpec\<close>

fun runSteps :: "'w env \<Rightarrow> jsval list \<Rightarrow> ('w, unit) run" where
  "runSteps E [] = ret ()"
| "runSteps E (step # steps) = bnd (executeStep E step) (\<lambda>_. runSteps E steps)"

text \<open>A method call \<^verbatim>\<open>v.toUpperCase()\<close> or \<^verbatim>\<open>v.replace(...)\<close> of the string
  prototype: on a value that is not a string there is no such method to call.\<close>

fun asString :: "jsval \<Rightarrow> error + string" where
  "asString (Str s) = Inr s"
| "asString v = Inl TypeError"

definition screenshotName :: "'w env \<Rightarrow> string \<Rightarrow> string \<Rightarrow> string" where
  "screenshotName E specPath name =
     path_basename E specPath ''.yaml'' @ ''-'' @ toLowerCase (replaceSpaces name) @ ''.png''"

definition screenshotDir :: "'w env \<Rightarrow> string \<Rightarrow> string" where
  "screenshotDir E specPath = path_join E [path_dirname E specPath, ''..'', ''screenshots'']"

text \<open>The \<^verbatim>\<open>catch\<close> block of the scenario loop; its result \<open>False\<close> stands for
  \<^verbatim>\<open>failed++\<close>.\<close>

definition onFailure :: "'w env \<Rightarrow> string \<Rightarrow> string \<Rightarrow> jsval \<Rightarrow> error \<Rightarrow> ('w, bool) run" where
  "onFailure E specPath dir scenario err =
     bnd (lift (getProp scenario ''name'')) (\<lambda>name.
     bnd (lift (asString name)) (\<lambda>n.
       let screenshotPath = path_join E [dir, screenshotName E specPath n] in
       bnd (do_call E (PageScreenshot screenshotPath True)) (\<lambda>_.
       bnd (log (LogFailed err)) (\<lambda>_.
       bnd (log (LogScreenshot screenshotPath)) (\<lambda>_. ret False)))))"

text \<open>The \<^verbatim>\<open>try\<close> block of the scenario loop; its result \<open>True\<close> stands for
  \<^verbatim>\<open>passed++\<close>.\<close>

definition trySteps :: "'w env \<Rightarrow> jsval \<Rightarrow> ('w, bool) run" where
  "trySteps E scenario =
     bnd (lift (getProp scenario ''steps'')) (\<lambda>steps.
     bnd (lift (iterate steps)) (\<lambda>sts.
     bnd (runSteps E sts) (\<lambda>_.
     bnd (log LogPassed) (\<lambda>_. ret True))))"

text \<open>The body of the scenario loop.\<close>

definition runScenario :: "'w env \<Rightarrow> string \<Rightarrow> string \<Rightarrow> jsval \<Rightarrow> ('w, bool) run" where
  "runScenario E specPath dir scenario =
     bnd (lift (getProp scenario ''name'')) (\<lambda>name.
     bnd (template name) (\<lambda>n.
     bnd (log (LogScenario n)) (\<lambda>_.
     try_catch (trySteps E scenario) (onFailure E specPath dir scenario))))"

fun runScenarios ::
  "'w env \<Rightarrow> string \<Rightarrow> string \<Rightarrow> jsval list \<Rightarrow> nat \<times> nat \<Rightarrow> ('w, nat \<times> nat) run" where
  "runScenarios E specPath dir [] pf = ret pf"
| "runScenarios E specPath dir (scenario # rest) pf =
     bnd (runScenario E specPath dir scenario) (\<lambda>ok.
       runScenarios E specPath dir rest
         (if ok then (Suc (fst pf), snd pf) else (fst pf, Suc (snd pf))))"

definition headless :: "'w env \<Rightarrow> bool" where
  "headless E = (case env_CI E of None \<Rightarrow> False | Some v \<Rightarrow> v \<noteq> [])"

definition runSpec :: "'w env \<Rightarrow> string \<Rightarrow> ('w, specResult) run" where
  "runSpec E specPath =
     bnd (loadSpec E specPath) (\<lambda>spec.
     bnd (lift (getProp spec ''status'')) (\<lambda>sv.
     bnd (lift (asString (if truthy sv then sv else Str ''draft''))) (\<lambda>status.
     bnd (lift (getProp spec ''feature'')) (\<lambda>feature.
     bnd (template feature) (\<lambda>f.
     bnd (log (LogHeader (toUpperCase status) f)) (\<lambda>_.
     bnd (do_call E (Launch (headless E))) (\<lambda>_.
     bnd (do_call E NewPage) (\<lambda>_.
     bnd (ensureDir E (screenshotDir E specPath)) (\<lambda>_.
     bnd (lift (getProp spec ''scenarios'')) (\<lambda>scenarios.
     bnd (lift (iterate scenarios)) (\<lambda>scs.
     bnd (runScenarios E specPath (screenshotDir E specPath) scs (0, 0)) (\<lambda>pf.
     bnd (do_call E BrowserClose) (\<lambda>_.
     ret \<lparr>r_passed = fst pf, r_failed = snd pf, r_status = status\<rparr>)))))))))))))"

section \<open>main\<close>

text \<open>The names every object inherits from \<^verbatim>\<open>Object.prototype\<close>: under them the
  lookup \<^verbatim>\<open>results[result.status]\<close> finds a built-in object, neither of the two
  buckets, and the two \<^verbatim>\<open>+=\<close> set properties \<^verbatim>\<open>passed\<close> and \<^verbatim>\<open>failed\<close> on that
  object. Under \<^verbatim>\<open>__proto__\<close> the object is \<^verbatim>\<open>Object.prototype\<close> itself: from then on
  \<^verbatim>\<open>results['passed']\<close> and \<^verbatim>\<open>results['failed']\<close> find a number instead of
  \<^verbatim>\<open>undefined\<close>, and a \<^verbatim>\<open>+=\<close> on a property of a number is ignored. So the loop of
  \<^verbatim>\<open>main\<close> carries, next to \<^verbatim>\<open>results\<close>, whether this has happened.\<close>

record tally =
  buckets :: results
  inherited :: bool

definition objectPrototypeKeys :: "string list" where
  "objectPrototypeKeys =
     [''constructor'', ''__defineGetter__'', ''__defineSetter__'', ''hasOwnProperty'',
      ''__lookupGetter__'', ''__lookupSetter__'', ''isPrototypeOf'',
      ''propertyIsEnumerable'', ''toString'', ''valueOf'', ''__proto__'',
      ''toLocaleString'']"

definition addCounts :: "counts \<Rightarrow> specResult \<Rightarrow> counts" where
  "addCounts c r = \<lparr>passed = passed c + r_passed r, failed = failed c + r_failed r\<rparr>"

text \<open>The two statements \<^verbatim>\<open>results[result.status].passed += ...\<close> and
  \<^verbatim>\<open>results[result.status].failed += ...\<close>.\<close>

definition addResult :: "tally \<Rightarrow> specResult \<Rightarrow> error + tally" where
  "addResult t r =
     (if r_status r = ''active''
      then Inr (t\<lparr>buckets := (buckets t)\<lparr>active := addCounts (active (buckets t)) r\<rparr>\<rparr>)
      else if r_status r = ''draft''
      then Inr (t\<lparr>buckets := (buckets t)\<lparr>draft := addCounts (draft (buckets t)) r\<rparr>\<rparr>)
      else if r_status r = ''__proto__'' then Inr (t\<lparr>inherited := True\<rparr>)
      else if r_status r \<in> set objectPrototypeKeys then Inr t
      else if inherited t \<and> (r_status r = ''passed'' \<or> r_status r = ''failed'') then Inr t
      else Inl TypeError)"

text \<open>\<^verbatim>\<open>results.draft.failed++\<close>\<close>

definition draftFailure :: "tally \<Rightarrow> tally" where
  "draftFailure t =
     t\<lparr>buckets := (buckets t)\<lparr>draft :=
        (draft (buckets t))\<lparr>failed := Suc (failed (draft (buckets t)))\<rparr>\<rparr>\<rparr>"

text \<open>The body of the loop over the spec files, with its \<^verbatim>\<open>try\<close> and
  \<^verbatim>\<open>catch\<close>.\<close>

definition processSpec :: "'w env \<Rightarrow> string \<Rightarrow> tally \<Rightarrow> 'w state \<Rightarrow> tally \<times> 'w state" where
  "processSpec E specFile t s =
     (case bnd (runSpec E specFile) (\<lambda>r. lift (addResult t r)) s of
        (Inr t', s') \<Rightarrow> (t', s')
      | (Inl err, s') \<Rightarrow>
          (draftFailure t, s'\<lparr>trace := trace s' @ [Log (LogErrorRunning specFile err)]\<rparr>))"

fun mainLoop :: "'w env \<Rightarrow> string list \<Rightarrow> tally \<Rightarrow> 'w state \<Rightarrow> tally \<times> 'w state" where
  "mainLoop E [] t s = (t, s)"
| "mainLoop E (specFile # rest) t s =
     (case processSpec E specFile t s of (t', s') \<Rightarrow> mainLoop E rest t' s')"

definition emptyResults :: results where
  "emptyResults = \<lparr>active = \<lparr>passed = 0, failed = 0\<rparr>, draft = \<lparr>passed = 0, failed = 0\<rparr>\<rparr>"

definition startTally :: tally where
  "startTally = \<lparr>buckets = emptyResults, inherited = False\<rparr>"

definition exitCode :: "results \<Rightarrow> nat" where
  "exitCode res =
     (if failed (active res) > 0 then 1 else if failed (draft res) > 0 then 0 else 0)"

definition verdict :: "results \<Rightarrow> logline" where
  "verdict res =
     (if failed (active res) > 0 then LogBuildFailed
      else if failed (draft res) > 0 then LogDraftPending else LogAllPassed)"

text \<open>\<^verbatim>\<open>main\<close> ends in \<^verbatim>\<open>process.exit\<close> on every path: its value is the exit
  code.\<close>

definition main :: "'w env \<Rightarrow> string list \<Rightarrow> 'w state \<Rightarrow> nat \<times> 'w state" where
  "main E args s =
     (if args = [] then (1, s\<lparr>trace := trace s @ [Log LogUsage]\<rparr>)
      else
        (case mainLoop E (map (path_resolve E) args) startTally s of
           (t, s') \<Rightarrow>
             (exitCode (buckets t),
              s'\<lparr>trace := trace s' @
                 [Log (LogSummary (buckets t)), Log (verdict (buckets t))]\<rparr>)))"

text \<open>For stating properties of an invocation: what each call of \<^verbatim>\<open>runSpec\<close> in
  the loop came to, in order, and the summary the loop ends with.\<close>

fun outcomes :: "'w env \<Rightarrow> string list \<Rightarrow> tally \<Rightarrow> 'w state \<Rightarrow> (error + specResult) list" where
  "outcomes E [] t s = []"
| "outcomes E (specFile # rest) t s =
     fst (runSpec E specFile s) #
       (case processSpec E specFile t s of (t', s') \<Rightarrow> outcomes E rest t' s')"

definition summary :: "'w env \<Rightarrow> string list \<Rightarrow> 'w state \<Rightarrow> results" where
  "summary E args s = buckets (fst (mainLoop E (map (path_resolve E) args) startTally s))"

section \<open>The single-spec runner of run-spec.js\<close>

definition simple_actions :: "string list" where
  "simple_actions = [''goto'', ''click'', ''fill'', ''assert_visible'', ''assert_url'', ''wait'']"

definition simple_dispatch :: "'w env \<Rightarrow> string \<Rightarrow> jsval \<Rightarrow> ('w, unit) run" where
  "simple_dispatch E action v =
    (if action = ''goto'' then do_call E (Goto v)
     else if action = ''click'' then
       (if isString v then do_call E (TextClick v)
        else bnd (lift (getProp v ''selector'')) (\<lambda>sel. do_call E (PageClick sel)))
     else if action = ''fill'' then
       bnd (lift (getProp v ''selector'')) (\<lambda>sel.
       bnd (lift (getProp v ''value'')) (\<lambda>x. do_call E (PageFill sel x)))
     else if action = ''assert_visible'' then
       bnd (do_fetch E PageContent) (\<lambda>content.
       bnd (template v) (\<lambda>t.
         if \<not> str_includes content t
         then throw (Error (''Text \"'' @ t @ ''\" not found on page''))
         else ret ()))
     else if action = ''assert_url'' then
       bnd (page_url E) (\<lambda>url.
       bnd (template v) (\<lambda>t.
         if \<not> str_includes url t
         then throw (Error (''URL \"'' @ url @ ''\" does not contain \"'' @ t @ ''\"''))
         else ret ()))
     else if action = ''wait'' then do_call E (WaitForTimeout v)
     else throw (Error (''Unknown action: '' @ action)))"

definition simple_executeStep :: "'w env \<Rightarrow> jsval \<Rightarrow> ('w, unit) run" where
  "simple_executeStep E step =
     bnd (lift (firstEntry step)) (\<lambda>(action, v).
     bnd (log (LogStep action v)) (\<lambda>_. simple_dispatch E action v))"

fun simple_runSteps :: "'w env \<Rightarrow> jsval list \<Rightarrow> ('w, unit) run" where
  "simple_runSteps E [] = ret ()"
| "simple_runSteps E (step # steps) =
     bnd (simple_executeStep E step) (\<lambda>_. simple_runSteps E steps)"

definition simple_trySteps :: "'w env \<Rightarrow> jsval \<Rightarrow> ('w, bool) run" where
  "simple_trySteps E scenario =
     bnd (lift (getProp scenario ''steps'')) (\<lambda>steps.
     bnd (lift (iterate steps)) (\<lambda>sts.
     bnd (simple_runSteps E sts) (\<lambda>_.
     bnd (log LogPassed) (\<lambda>_. ret True))))"

definition simple_runScenario :: "'w env \<Rightarrow> jsval \<Rightarrow> ('w, bool) run" where
  "simple_runScenario E scenario =
     bnd (lift (getProp scenario ''name'')) (\<lambda>name.
     bnd (template name) (\<lambda>n.
     bnd (log (LogScenario n)) (\<lambda>_.
     try_catch (simple_trySteps E scenario)
       (\<lambda>err. bnd (log (LogFailed err)) (\<lambda>_. ret False)))))"

fun simple_runScenarios :: "'w env \<Rightarrow> jsval list \<Rightarrow> nat \<times> nat \<Rightarrow> ('w, nat \<times> nat) run" where
  "simple_runScenarios E [] pf = ret pf"
| "simple_runScenarios E (scenario # rest) pf =
     bnd (simple_runScenario E scenario) (\<lambda>ok.
       simple_runScenarios E rest
         (if ok then (Suc (fst pf), snd pf) else (fst pf, Suc (snd pf))))"

text \<open>This \<^verbatim>\<open>runSpec\<close> returns \<^verbatim>\<open>failed === 0\<close>.\<close>

definition simple_runSpec :: "'w env \<Rightarrow> string \<Rightarrow> ('w, bool) run" where
  "simple_runSpec E specPath =
     bnd (loadSpec E specPath) (\<lambda>spec.
     bnd (lift (getProp spec ''feature'')) (\<lambda>feature.
     bnd (template feature) (\<lambda>f.
     bnd (log (LogRunning f)) (\<lambda>_.
     bnd (do_call E (Launch False)) (\<lambda>_.
     bnd (do_call E NewPage) (\<lambda>_.
     bnd (lift (getProp spec ''scenarios'')) (\<lambda>scenarios.
     bnd (lift (iterate scenarios)) (\<lambda>scs.
     bnd (simple_runScenarios E scs (0, 0)) (\<lambda>pf.
     bnd (do_call E BrowserClose) (\<lambda>_.
     bnd (log (LogResults (fst pf) (snd pf))) (\<lambda>_.
     ret (snd pf = 0))))))))))))"

text \<open>The last lines of run-spec.js: the usage when the first argument is missing or
  empty, otherwise the exit code 0 when \<^verbatim>\<open>runSpec\<close> resolves to \<^verbatim>\<open>true\<close> and 1 when it
  resolves to \<^verbatim>\<open>false\<close> or rejects.\<close>

definition simple_main :: "'w env \<Rightarrow> string list \<Rightarrow> 'w state \<Rightarrow> nat \<times> 'w state" where
  "simple_main E args s =
     (case args of
        [] \<Rightarrow> (1, s\<lparr>trace := trace s @ [Log LogUsage]\<rparr>)
      | specPath # rest \<Rightarrow>
          if specPath = [] then (1, s\<lparr>trace := trace s @ [Log LogUsage]\<rparr>)
          else
            (case simple_runSpec E (path_resolve E specPath) s of
               (Inr success, s') \<Rightarrow> (if success then 0 else 1, s')
             | (Inl err, s') \<Rightarrow> (1, s'\<lparr>trace := trace s' @ [Log (LogError err)]\<rparr>)))"

section \<open>An environment for the examples\<close>

text \<open>
  A small POSIX world on which the definitions can be run: a page with its current URL
  that navigation sets, that crashes on \<^verbatim>\<open>chrome://crash\<close> and rejects every page
  operation but the plain timer once crashed, a project directory \<^verbatim>\<open>/proj\<close> and a few
  spec files.
\<close>

record fx_world =
  fx_url :: string
  fx_alive :: bool

definition fx_crashed :: error where
  "fx_crashed = External ''Target crashed''"

fun fx_perform :: "call \<Rightarrow> fx_world \<Rightarrow> error option \<times> fx_world" where
  "fx_perform (Launch h) w = (None, \<lparr>fx_url = ''about:blank'', fx_alive = True\<rparr>)"
| "fx_perform NewPage w = (None, w)"
| "fx_perform BrowserClose w = (None, w)"
| "fx_perform (MkdirSync d) w = (None, w)"
| "fx_perform (WaitForTimeout v) w = (None, w)"
| "fx_perform (Goto v) w =
     (if \<not> fx_alive w then (Some fx_crashed, w)
      else if v = Str ''chrome://crash'' then (Some fx_crashed, w\<lparr>fx_alive := False\<rparr>)
      else (case v of Str u \<Rightarrow> (None, w\<lparr>fx_url := u\<rparr>)
            | _ \<Rightarrow> (Some (External ''url: expected string''), w)))"
| "fx_perform c w = (if fx_alive w then (None, w) else (Some fx_crashed, w))"

definition fx_wrong :: jsval where
  "fx_wrong = Obj
     [(''name'', Str ''Wrong Case''),
      (''steps'', Arr
        [Obj [(''goto'', Str ''https://x.test/dashboard?tab=1'')],
         Obj [(''assert_url'', Str ''/Dashboard'')],
         Obj [(''goto'', Str ''https://x.test/never'')]])]"

definition fx_login :: jsval where
  "fx_login = Obj
     [(''feature'', Str ''Login''),
      (''status'', Str ''active''),
      (''scenarios'', Arr
        [Obj [(''name'', Str ''Happy  Path''),
              (''steps'', Arr
                [Obj [(''goto'', Str ''https://x.test/dashboard?tab=1'')],
                 Obj [(''assert_url'', Str ''/dashboard'')]])],
         fx_wrong])]"

definition fx_reset :: jsval where
  "fx_reset = Obj
     [(''feature'', Str ''Password reset''),
      (''scenarios'', Arr
        [Obj [(''name'', Str ''Ask for a link''),
              (''steps'', Arr [Obj [(''foo'', Str ''bar'')]])]])]"

definition fx_crash :: jsval where
  "fx_crash = Obj
     [(''feature'', Str ''Crash''),
      (''status'', Str ''active''),
      (''scenarios'', Arr
        [Obj [(''name'', Str ''first''),
              (''steps'', Arr [Obj [(''goto'', Str ''chrome://crash'')]])],
         Obj [(''name'', Str ''second''),
              (''steps'', Arr [Obj [(''wait'', Num 1)]])]])]"

definition fx_odd :: jsval where
  "fx_odd = Obj
     [(''feature'', Str ''Odd status''),
      (''status'', Str ''constructor''),
      (''scenarios'', Arr
        [Obj [(''name'', Str ''fails''),
              (''steps'', Arr [Obj [(''foo'', Str ''bar'')]])]])]"

definition fx_numbered :: jsval where
  "fx_numbered = Obj
     [(''feature'', Str ''Numbered''),
      (''status'', Str ''active''),
      (''scenarios'', Arr
        [Obj [(''name'', Num 404),
              (''steps'', Arr [Obj [(''foo'', Str ''bar'')]])],
         Obj [(''name'', Str ''after''),
              (''steps'', Arr [Obj [(''wait'', Num 1)]])]])]"

definition fx_wip :: jsval where
  "fx_wip = Obj [(''feature'', Str ''Later''), (''status'', Str ''wip''), (''scenarios'', Arr [])]"

definition fx_readParse :: "string \<Rightarrow> fx_world \<Rightarrow> error + jsval" where
  "fx_readParse p w =
     (if p = ''/proj/specs/login.yaml'' then Inr fx_login
      else if p = ''/proj/specs/reset.yaml'' then Inr fx_reset
      else if p = ''/proj/specs/crash.yaml'' then Inr fx_crash
      else if p = ''/proj/specs/odd.yaml'' then Inr fx_odd
      else if p = ''/proj/specs/empty.yaml'' then Inr (Obj [(''feature'', Str ''Empty'')])
      else if p = ''/proj/specs/wip.yaml'' then Inr fx_wip
      else if p = ''/proj/specs/numbered.yaml'' then Inr fx_numbered
      else Inl (External ''ENOENT: no such file or directory''))"

fun splitOn :: "char \<Rightarrow> string \<Rightarrow> string list" where
  "splitOn c [] = [[]]"
| "splitOn c (x # xs) =
     (if x = c then [] # splitOn c xs
      else (case splitOn c xs of [] \<Rightarrow> [[x]] | y # ys \<Rightarrow> (x # y) # ys))"

fun fx_segments :: "string list \<Rightarrow> string list \<Rightarrow> string list" where
  "fx_segments acc [] = rev acc"
| "fx_segments acc (x # xs) =
     (if x = [] \<or> x = ''.'' then fx_segments acc xs
      else if x = ''..'' then fx_segments (tl acc) xs
      else fx_segments (x # acc) xs)"

definition fx_join :: "string list \<Rightarrow> string" where
  "fx_join parts =
     (let joined = intercalate ''/'' (filter (\<lambda>p. p \<noteq> []) parts);
          body = intercalate ''/'' (fx_segments [] (splitOn CHR ''/'' joined))
      in if take 1 joined = ''/'' then ''/'' @ body else body)"

definition fx_dirname :: "string \<Rightarrow> string" where
  "fx_dirname p = rev (drop 1 (dropWhile (\<lambda>c. c \<noteq> CHR ''/'') (rev p)))"

definition fx_basename :: "string \<Rightarrow> string \<Rightarrow> string" where
  "fx_basename p ext =
     (let b = rev (takeWhile (\<lambda>c. c \<noteq> CHR ''/'') (rev p))
      in if length ext < length b \<and> drop (length b - length ext) b = ext
         then take (length b - length ext) b else b)"

definition fx_env :: "fx_world env" where
  "fx_env =
     \<lparr>readParse = fx_readParse,
      perform = fx_perform,
      ask = (\<lambda>c w. (if fx_alive w then Inr False else Inl fx_crashed, w)),
      fetch = (\<lambda>c w. (if fx_alive w then Inr [] else Inl fx_crashed, w)),
      pageUrl = fx_url,
      existsSync = (\<lambda>d w. True),
      cwd = ''/proj'',
      env_CI = Some ''true'',
      path_join = fx_join,
      path_dirname = fx_dirname,
      path_basename = fx_basename,
      path_resolve = (\<lambda>a. if take 1 a = ''/'' then a else fx_join [''/proj'', a])\<rparr>"

definition fx_start :: "fx_world state" where
  "fx_start = \<lparr>world = \<lparr>fx_url = [], fx_alive = False\<rparr>, trace = []\<rparr>"

definition fx_page :: "fx_world state" where
  "fx_page =
     \<lparr>world = \<lparr>fx_url = ''https://x.test/dashboard?tab=1'', fx_alive = True\<rparr>, trace = []\<rparr>"

section \<open>Notions for stating properties of a run\<close>

text \<open>A browser session is opened by a launch that succeeds and closed by a
  \<^verbatim>\<open>browser.close()\<close> that succeeds.\<close>

fun opened :: "event \<Rightarrow> bool" where
  "opened (Call (Launch h) None) = True"
| "opened ev = False"

fun closed :: "event \<Rightarrow> bool" where
  "closed (Call BrowserClose None) = True"
| "closed ev = False"

definition quiet :: "event \<Rightarrow> bool" where
  "quiet ev = (\<not> opened ev \<and> \<not> closed ev)"

text \<open>The calls made on a page, as opposed to those on the browser.\<close>

fun pageCall :: "call \<Rightarrow> bool" where
  "pageCall (Launch h) = False"
| "pageCall BrowserClose = False"
| "pageCall c = True"

text \<open>The capital letters among the code units below 256, and the failures that a
  returned result adds to the active bucket.\<close>

definition isUpper :: "char \<Rightarrow> bool" where
  "isUpper c =
     (let n = (of_char c :: nat)
      in (65 \<le> n \<and> n \<le> 90) \<or> (192 \<le> n \<and> n \<le> 222 \<and> n \<noteq> 215))"

fun activeFailed :: "error + specResult \<Rightarrow> nat" where
  "activeFailed (Inl e) = 0"
| "activeFailed (Inr r) = (if r_status r = ''active'' then r_failed r else 0)"

text \<open>\<open>emits m Q\<close>: from any state, \<open>m\<close> only appends to the trace, and its result and
  the events it appends satisfy \<open>Q\<close>; \<open>keeps P m\<close>: every appended event satisfies
  \<open>P\<close>.\<close>

definition emits :: "('w, 'a) run \<Rightarrow> (error + 'a \<Rightarrow> event list \<Rightarrow> bool) \<Rightarrow> bool" where
  "emits m Q = (\<forall>s. \<exists>evs. trace (snd (m s)) = trace s @ evs \<and> Q (fst (m s)) evs)"

definition keeps :: "(event \<Rightarrow> bool) \<Rightarrow> ('w, 'a) run \<Rightarrow> bool" where
  "keeps P m = emits m (\<lambda>r evs. list_all P evs)"

text \<open>The events of a spec run from the launch on, and of the whole run.\<close>

definition afterLaunch :: "error + 'a \<Rightarrow> event list \<Rightarrow> bool" where
  "afterLaunch r evs =
     (case r of Inl e \<Rightarrow> list_all quiet evs
      | Inr x \<Rightarrow> \<exists>pre. evs = pre @ [Call BrowserClose None] \<and> list_all quiet pre)"

definition wholeRun :: "error + 'a \<Rightarrow> event list \<Rightarrow> bool" where
  "wholeRun r evs =
     (case r of
        Inl e \<Rightarrow> length (filter opened evs) \<le> 1 \<and> filter closed evs = []
      | Inr x \<Rightarrow> \<exists>pre. evs = pre @ [Call BrowserClose None] \<and>
                 length (filter opened pre) = 1 \<and> filter closed pre = [])"

section \<open>Sequencing\<close>

lemma bnd_simps:
  "bnd (ret x) f = f x"
  "bnd (throw e) f = throw e"
  "bnd (lift (Inr x)) f = f x"
  "bnd (lift (Inl e)) f = throw e"
  by (auto simp: bnd_def ret_def throw_def lift_def fun_eq_iff)

lemma emitsD:
  "emits m Q \<Longrightarrow> m s = (r, s') \<Longrightarrow> \<exists>evs. trace s' = trace s @ evs \<and> Q r evs"
  unfolding emits_def by (metis fst_conv snd_conv)

lemma emitsI:
  "(\<And>s r s'. m s = (r, s') \<Longrightarrow> \<exists>evs. trace s' = trace s @ evs \<and> Q r evs) \<Longrightarrow> emits m Q"
  unfolding emits_def by (metis prod.collapse)

lemma emits_bnd:
  assumes m: "emits m Q1"
    and f: "\<And>x. emits (f x) (Q2 x)"
    and l: "\<And>e evs. Q1 (Inl e) evs \<Longrightarrow> Q (Inl e) evs"
    and r: "\<And>x r e1 e2. Q1 (Inr x) e1 \<Longrightarrow> Q2 x r e2 \<Longrightarrow> Q r (e1 @ e2)"
  shows "emits (bnd m f) Q"
proof (rule emitsI)
  fix s r s'
  assume run: "bnd m f s = (r, s')"
  obtain r1 s1 where m1: "m s = (r1, s1)" by (cases "m s")
  from emitsD [OF m m1] obtain e1 where e1: "trace s1 = trace s @ e1" "Q1 r1 e1" by blast
  show "\<exists>evs. trace s' = trace s @ evs \<and> Q r evs"
  proof (cases r1)
    case (Inl e)
    with run m1 have "r = Inl e" "s' = s1" by (simp_all add: bnd_def)
    with e1 Inl l show ?thesis by auto
  next
    case (Inr x)
    with run m1 have "f x s1 = (r, s')" by (simp add: bnd_def)
    from emitsD [OF f this] obtain e2 where e2: "trace s' = trace s1 @ e2" "Q2 x r e2" by blast
    from e1 e2 Inr r have "trace s' = trace s @ (e1 @ e2) \<and> Q r (e1 @ e2)" by auto
    then show ?thesis by blast
  qed
qed

lemma keeps_bnd: "keeps P m \<Longrightarrow> (\<And>x. keeps P (f x)) \<Longrightarrow> keeps P (bnd m f)"
  unfolding keeps_def by (erule emits_bnd) auto

lemma keeps_try_catch: "keeps P m \<Longrightarrow> (\<And>e. keeps P (h e)) \<Longrightarrow> keeps P (try_catch m h)"
proof -
  assume m: "keeps P m" and h: "\<And>e. keeps P (h e)"
  show ?thesis
    unfolding keeps_def
  proof (rule emitsI)
    fix s r s'
    assume run: "try_catch m h s = (r, s')"
    obtain r1 s1 where m1: "m s = (r1, s1)" by (cases "m s")
    from emitsD [OF m [unfolded keeps_def] m1] obtain e1
      where e1: "trace s1 = trace s @ e1" "list_all P e1" by blast
    show "\<exists>evs. trace s' = trace s @ evs \<and> list_all P evs"
    proof (cases r1)
      case (Inl e)
      with run m1 have "h e s1 = (r, s')" by (simp add: try_catch_def)
      from emitsD [OF h [unfolded keeps_def] this] obtain e2
        where "trace s' = trace s1 @ e2" "list_all P e2" by blast
      with e1 have "trace s' = trace s @ (e1 @ e2) \<and> list_all P (e1 @ e2)" by auto
      then show ?thesis by blast
    next
      case (Inr x)
      with run m1 have "s' = s1" by (simp add: try_catch_def)
      with e1 show ?thesis by auto
    qed
  qed
qed

lemma keeps_basic:
  "keeps P (ret x)"
  "keeps P (throw e)"
  "keeps P (lift v)"
  "keeps P (template j)"
  "keeps P (page_url E)"
  "keeps P (loadSpec E p)"
  by (auto simp: keeps_def emits_def ret_def throw_def lift_def template_def page_url_def
      loadSpec_def split: option.splits)

lemma keeps_log: "P (Log l) \<Longrightarrow> keeps P (log l)"
  by (simp add: keeps_def emits_def log_def)

lemma keeps_call: "(\<And>r. P (Call c r)) \<Longrightarrow> keeps P (do_call E c)"
  by (auto simp: keeps_def emits_def do_call_def split: prod.splits)

lemma keeps_ask: "(\<And>r. P (Ask c r)) \<Longrightarrow> keeps P (do_ask E c)"
  by (auto simp: keeps_def emits_def do_ask_def split: prod.splits)

lemma keeps_fetch: "(\<And>r. P (Fetch c r)) \<Longrightarrow> keeps P (do_fetch E c)"
  by (auto simp: keeps_def emits_def do_fetch_def split: prod.splits)

lemma keeps_ensureDir: "(\<And>r. P (Call (MkdirSync d) r)) \<Longrightarrow> keeps P (ensureDir E d)"
  by (auto simp: keeps_def emits_def ensureDir_def do_call_def ret_def split: prod.splits)

lemma keeps_if: "keeps P a \<Longrightarrow> keeps P b \<Longrightarrow> keeps P (if c then a else b)"
  by simp

lemma quiet_simps [simp]:
  "quiet (Log l)" "quiet (Ask c a)" "quiet (Fetch c b)"
  "pageCall c \<Longrightarrow> quiet (Call c r)"
  "quiet (Call c (Some e))"
  by (cases c; cases r; simp add: quiet_def)+

lemmas keeps_intros =
  keeps_bnd keeps_try_catch keeps_basic keeps_log keeps_call keeps_ask keeps_fetch
  keeps_ensureDir keeps_if

lemma keeps_dispatch: "keeps quiet (dispatch E action v)"
  unfolding dispatch_def Let_def
  by (intro keeps_intros quiet_simps) simp_all

lemma keeps_executeStep: "keeps quiet (executeStep E step)"
  unfolding executeStep_def
  by (intro keeps_intros quiet_simps keeps_dispatch | simp add: split_def)+

lemma keeps_runSteps: "keeps quiet (runSteps E steps)"
  by (induction steps) (auto intro!: keeps_intros keeps_executeStep)

lemma keeps_runScenario: "keeps quiet (runScenario E p d sc)"
  unfolding runScenario_def trySteps_def onFailure_def Let_def
  by (intro keeps_intros quiet_simps keeps_runSteps) simp_all

lemma keeps_runScenarios: "keeps quiet (runScenarios E p d scs pf)"
  by (induction scs arbitrary: pf) (auto intro!: keeps_intros keeps_runScenario)

lemma bnd_log: "bnd (log l) f s = f () (s\<lparr>trace := trace s @ [Log l]\<rparr>)"
  by (simp add: bnd_def log_def)

lemma bnd_template: "toStr v = Some t \<Longrightarrow> bnd (template v) f = f t"
  by (simp add: template_def bnd_simps)

lemma bnd_InrE:
  assumes "bnd m f s = (Inr y, s')"
  obtains x s1 where "m s = (Inr x, s1)" and "f x s1 = (Inr y, s')"
  using assms by (auto simp: bnd_def split: prod.splits sum.splits)

lemma bnd_Inr: "m s = (Inr x, s1) \<Longrightarrow> bnd m f s = f x s1"
  by (simp add: bnd_def)

lemma bnd_Inl: "m s = (Inl e, s1) \<Longrightarrow> bnd m f s = (Inl e, s1)"
  by (simp add: bnd_def)

section \<open>Steps\<close>

text \<open>\<open>str_includes\<close> finds exactly the contiguous occurrences: the receiver is some
  prefix, then the argument character for character, then some suffix.\<close>

lemma str_includes_iff: "str_includes s t \<longleftrightarrow> (\<exists>xs ys. s = xs @ t @ ys)"
proof (induction s)
  case Nil
  then show ?case by simp
next
  case (Cons c cs)
  have here: "take (length t) (c # cs) = t \<longleftrightarrow> (\<exists>ys. c # cs = t @ ys)"
    by (metis append_eq_conv_conj)
  have "(\<exists>xs ys. c # cs = xs @ t @ ys) \<longleftrightarrow>
        (\<exists>ys. c # cs = t @ ys) \<or> (\<exists>xs ys. cs = xs @ t @ ys)"
  proof
    assume "\<exists>xs ys. c # cs = xs @ t @ ys"
    then obtain xs ys where eq: "c # cs = xs @ t @ ys" by blast
    show "(\<exists>ys. c # cs = t @ ys) \<or> (\<exists>xs ys. cs = xs @ t @ ys)"
    proof (cases xs)
      case Nil
      with eq show ?thesis by auto
    next
      case (Cons x xs')
      with eq have "cs = xs' @ t @ ys" by simp
      then show ?thesis by blast
    qed
  next
    assume "(\<exists>ys. c # cs = t @ ys) \<or> (\<exists>xs ys. cs = xs @ t @ ys)"
    then show "\<exists>xs ys. c # cs = xs @ t @ ys"
    proof
      assume "\<exists>ys. c # cs = t @ ys"
      then obtain ys where "c # cs = [] @ t @ ys" by auto
      then show ?thesis by blast
    next
      assume "\<exists>xs ys. cs = xs @ t @ ys"
      then obtain xs ys where "c # cs = (c # xs) @ t @ ys" by auto
      then show ?thesis by blast
    qed
  qed
  with here Cons.IH show ?case by simp
qed

lemma dispatch_unknown:
  "action \<notin> set supported_actions \<Longrightarrow>
   dispatch E action v = throw (Error (''Unknown action: '' @ action))"
  unfolding supported_actions_def dispatch_def by simp

lemma simple_dispatch_unknown:
  "action \<notin> set simple_actions \<Longrightarrow>
   simple_dispatch E action v = throw (Error (''Unknown action: '' @ action))"
  unfolding simple_actions_def simple_dispatch_def by simp

lemma url_check:
  assumes "toStr expected = Some t"
  shows "bnd (page_url E) (\<lambda>url. bnd (template expected) (\<lambda>t.
           if \<not> str_includes url t
           then throw (Error (''URL \"'' @ url @ ''\" does not contain \"'' @ t @ ''\"''))
           else ret ())) s =
     ((if \<exists>xs ys. pageUrl E (world s) = xs @ t @ ys then Inr ()
       else Inl (Error (''URL \"'' @ pageUrl E (world s) @ ''\" does not contain \"'' @ t @ ''\"''))),
      s)"
  using assms
  by (simp add: bnd_def page_url_def template_def str_includes_iff ret_def throw_def)

lemma dispatch_assert_url:
  "toStr expected = Some t \<Longrightarrow>
   dispatch E ''assert_url'' expected s =
     ((if \<exists>xs ys. pageUrl E (world s) = xs @ t @ ys then Inr ()
       else Inl (Error (''URL \"'' @ pageUrl E (world s) @ ''\" does not contain \"'' @ t @ ''\"''))),
      s)"
  by (simp add: dispatch_def url_check)

lemma simple_dispatch_assert_url:
  "toStr expected = Some t \<Longrightarrow>
   simple_dispatch E ''assert_url'' expected s =
     ((if \<exists>xs ys. pageUrl E (world s) = xs @ t @ ys then Inr ()
       else Inl (Error (''URL \"'' @ pageUrl E (world s) @ ''\" does not contain \"'' @ t @ ''\"''))),
      s)"
  by (simp add: simple_dispatch_def url_check)

text \<open>
  C7. In both runners, a step \<^verbatim>\<open>assert_url: expected\<close> writes its log line and then passes
  exactly when the current URL of the page is some prefix, followed by the expected text
  character for character, followed by some suffix; otherwise it raises the error
  \<^verbatim>\<open>URL "..." does not contain "..."\<close>. Nothing is normalised and no case is folded: the
  comparison is equality of character lists. (\<open>t\<close> is the expected value as a string; for
  a string value it is the value itself.)
\<close>

theorem assert_url_contains:
  assumes "toStr expected = Some t"
  shows
    "executeStep E (Obj [(''assert_url'', expected)]) s =
       ((if \<exists>xs ys. pageUrl E (world s) = xs @ t @ ys then Inr ()
         else Inl (Error (''URL \"'' @ pageUrl E (world s) @ ''\" does not contain \"'' @ t @ ''\"''))),
        s\<lparr>trace := trace s @ [Log (LogStep ''assert_url'' expected)]\<rparr>) \<and>
     simple_executeStep E (Obj [(''assert_url'', expected)]) s =
       ((if \<exists>xs ys. pageUrl E (world s) = xs @ t @ ys then Inr ()
         else Inl (Error (''URL \"'' @ pageUrl E (world s) @ ''\" does not contain \"'' @ t @ ''\"''))),
        s\<lparr>trace := trace s @ [Log (LogStep ''assert_url'' expected)]\<rparr>)"
  using assms
  by (simp add: executeStep_def simple_executeStep_def bnd_simps bnd_log dispatch_assert_url
      simple_dispatch_assert_url)

theorem assert_url_contains_witness:
  "toStr (Str ''/dashboard'') = Some ''/dashboard'' \<and>
   fst (executeStep fx_env (Obj [(''assert_url'', Str ''/dashboard'')]) fx_page) = Inr () \<and>
   toStr (Str ''/Dashboard'') = Some ''/Dashboard'' \<and>
   fst (executeStep fx_env (Obj [(''assert_url'', Str ''/Dashboard'')]) fx_page) =
     Inl (Error ''URL \"https://x.test/dashboard?tab=1\" does not contain \"/Dashboard\"'')"
proof -
  have u: "pageUrl fx_env (world fx_page) = ''https://x.test/dashboard?tab=1''"
    by (simp add: fx_env_def fx_page_def)
  have "str_includes ''https://x.test/dashboard?tab=1'' ''/dashboard''" by code_simp
  then have yes: "\<exists>xs ys. pageUrl fx_env (world fx_page) = xs @ ''/dashboard'' @ ys"
    unfolding u str_includes_iff .
  have "\<not> str_includes ''https://x.test/dashboard?tab=1'' ''/Dashboard''" by code_simp
  then have no: "\<not> (\<exists>xs ys. pageUrl fx_env (world fx_page) = xs @ ''/Dashboard'' @ ys)"
    unfolding u str_includes_iff .
  have a: "toStr (Str ''/dashboard'') = Some ''/dashboard''" by simp
  have b: "toStr (Str ''/Dashboard'') = Some ''/Dashboard''" by simp
  show ?thesis
    using assert_url_contains [OF a, of fx_env fx_page]
      assert_url_contains [OF b, of fx_env fx_page] yes no u
    by simp
qed

text \<open>
  C8. In both runners, a step whose only key is not one of the runner's actions writes its
  log line and then raises the error \<^verbatim>\<open>Unknown action: <key>\<close>, which names the key; no
  call reaches the browser and the state of the world is unchanged. It is never a silent
  no-op: the result is an error.
\<close>

theorem unknown_action_raises:
  "(action \<notin> set supported_actions \<longrightarrow>
      executeStep E (Obj [(action, v)]) s =
        (Inl (Error (''Unknown action: '' @ action)),
         s\<lparr>trace := trace s @ [Log (LogStep action v)]\<rparr>)) \<and>
   (action \<notin> set simple_actions \<longrightarrow>
      simple_executeStep E (Obj [(action, v)]) s =
        (Inl (Error (''Unknown action: '' @ action)),
         s\<lparr>trace := trace s @ [Log (LogStep action v)]\<rparr>))"
  by (simp add: executeStep_def simple_executeStep_def bnd_simps bnd_log dispatch_unknown
      simple_dispatch_unknown throw_def)

theorem unknown_action_raises_witness:
  "''foo'' \<notin> set supported_actions \<and> ''foo'' \<notin> set simple_actions \<and>
   executeStep fx_env (Obj [(''foo'', Str ''bar'')]) fx_start =
     (Inl (Error ''Unknown action: foo''),
      fx_start\<lparr>trace := trace fx_start @ [Log (LogStep ''foo'' (Str ''bar''))]\<rparr>) \<and>
   simple_executeStep fx_env (Obj [(''foo'', Str ''bar'')]) fx_start =
     (Inl (Error ''Unknown action: foo''),
      fx_start\<lparr>trace := trace fx_start @ [Log (LogStep ''foo'' (Str ''bar''))]\<rparr>)"
proof -
  have h: "''foo'' \<notin> set supported_actions" by (simp add: supported_actions_def)
  have h': "''foo'' \<notin> set simple_actions" by (simp add: simple_actions_def)
  show ?thesis
    using h h' unknown_action_raises [of "''foo''" fx_env "Str ''bar''" fx_start] by simp
qed

text \<open>
  C10. In both runners, a step object with further entries after its first one is executed
  exactly as the step that has the first entry alone: the first key is the action, its
  value the payload, and the remaining entries are never read. The step is not rejected
  for having them: it is logged and dispatched on its first entry.
\<close>

theorem first_entry_only:
  "executeStep E (Obj ((action, v) # rest)) s = executeStep E (Obj [(action, v)]) s \<and>
   simple_executeStep E (Obj ((action, v) # rest)) s =
     simple_executeStep E (Obj [(action, v)]) s \<and>
   executeStep E (Obj ((action, v) # rest)) s =
     dispatch E action v (s\<lparr>trace := trace s @ [Log (LogStep action v)]\<rparr>) \<and>
   simple_executeStep E (Obj ((action, v) # rest)) s =
     simple_dispatch E action v (s\<lparr>trace := trace s @ [Log (LogStep action v)]\<rparr>)"
  by (simp add: executeStep_def simple_executeStep_def bnd_simps bnd_log)

theorem first_entry_only_witness:
  "fst (executeStep fx_env
         (Obj [(''assert_url'', Str ''/dashboard''), (''foo'', Str ''bar'')]) fx_page) = Inr ()"
proof -
  have "fst (executeStep fx_env (Obj [(''assert_url'', Str ''/dashboard'')]) fx_page) = Inr ()"
    by code_simp
  then show ?thesis
    using first_entry_only [of fx_env "''assert_url''" "Str ''/dashboard''"
        "[(''foo'', Str ''bar'')]" fx_page]
    by simp
qed

section \<open>Scenarios\<close>

lemma runSteps_halts:
  "runSteps E pre s = (Inr (), s1) \<Longrightarrow> executeStep E bad s1 = (Inl err, s2) \<Longrightarrow>
   runSteps E (pre @ bad # post) s = (Inl err, s2)"
proof (induction pre arbitrary: s)
  case Nil
  then show ?case by (simp add: ret_def bnd_Inl)
next
  case (Cons a pre)
  from Cons.prems(1) obtain u sa where a: "executeStep E a s = (Inr u, sa)"
    and rest: "runSteps E pre sa = (Inr (), s1)"
    by (auto elim: bnd_InrE)
  from Cons.IH [OF rest Cons.prems(2)] a show ?case by (simp add: bnd_Inr)
qed

lemma simple_runSteps_halts:
  "simple_runSteps E pre s = (Inr (), s1) \<Longrightarrow> simple_executeStep E bad s1 = (Inl err, s2) \<Longrightarrow>
   simple_runSteps E (pre @ bad # post) s = (Inl err, s2)"
proof (induction pre arbitrary: s)
  case Nil
  then show ?case by (simp add: ret_def bnd_Inl)
next
  case (Cons a pre)
  from Cons.prems(1) obtain u sa where a: "simple_executeStep E a s = (Inr u, sa)"
    and rest: "simple_runSteps E pre sa = (Inr (), s1)"
    by (auto elim: bnd_InrE)
  from Cons.IH [OF rest Cons.prems(2)] a show ?case by (simp add: bnd_Inr)
qed

lemma trySteps_fails:
  assumes "getProp scenario ''steps'' = Inr (Arr steps)"
    and "runSteps E steps s = (Inl err, s1)"
  shows "trySteps E scenario s = (Inl err, s1)"
  using assms by (simp add: trySteps_def bnd_simps bnd_Inl)

lemma simple_trySteps_fails:
  assumes "getProp scenario ''steps'' = Inr (Arr steps)"
    and "simple_runSteps E steps s = (Inl err, s1)"
  shows "simple_trySteps E scenario s = (Inl err, s1)"
  using assms by (simp add: simple_trySteps_def bnd_simps bnd_Inl)

lemma runScenario_failed:
  assumes name: "getProp scenario ''name'' = Inr (Str n)"
    and fails: "trySteps E scenario (s\<lparr>trace := trace s @ [Log (LogScenario n)]\<rparr>) = (Inl err, s1)"
    and shot: "perform E (PageScreenshot (path_join E [dir, screenshotName E specPath n]) True)
                 (world s1) = (out, w2)"
  shows "runScenario E specPath dir scenario s =
     (case out of
        None \<Rightarrow>
          (Inr False,
           \<lparr>world = w2,
            trace = trace s1 @
              [Call (PageScreenshot (path_join E [dir, screenshotName E specPath n]) True) None,
               Log (LogFailed err),
               Log (LogScreenshot (path_join E [dir, screenshotName E specPath n]))]\<rparr>)
      | Some e \<Rightarrow>
          (Inl e,
           \<lparr>world = w2,
            trace = trace s1 @
              [Call (PageScreenshot (path_join E [dir, screenshotName E specPath n]) True)
                 (Some e)]\<rparr>))"
  using assms
  by (simp add: runScenario_def bnd_simps bnd_template bnd_log try_catch_def onFailure_def
      Let_def bnd_def do_call_def log_def ret_def split: option.splits)

lemma simple_runScenario_failed:
  assumes name: "getProp scenario ''name'' = Inr (Str n)"
    and fails: "simple_trySteps E scenario (s\<lparr>trace := trace s @ [Log (LogScenario n)]\<rparr>)
                  = (Inl err, s1)"
  shows "simple_runScenario E scenario s =
     (Inr False, s1\<lparr>trace := trace s1 @ [Log (LogFailed err)]\<rparr>)"
  using assms
  by (simp add: simple_runScenario_def bnd_simps bnd_template bnd_log try_catch_def ret_def)

text \<open>
  Within a scenario the steps stop at the first one that raises: the steps after it leave
  no trace and do not touch the world. In run-spec.js the scenario is then counted as one
  failure and the loop goes on with the next scenario. In the status-aware runner the same
  holds when the \<^verbatim>\<open>catch\<close> block runs to its end, that is, when the name of the scenario
  is a string and the screenshot is taken without error.
\<close>

lemma scenario_fails_fast:
  "(getProp scenario ''name'' = Inr (Str n) \<and>
    getProp scenario ''steps'' = Inr (Arr (pre @ bad # post)) \<and>
    runSteps E pre (s\<lparr>trace := trace s @ [Log (LogScenario n)]\<rparr>) = (Inr (), s1) \<and>
    executeStep E bad s1 = (Inl err, s2) \<and>
    perform E (PageScreenshot (path_join E [dir, screenshotName E specPath n]) True) (world s2)
      = (None, w3)
    \<longrightarrow>
    runSteps E (pre @ bad # post) (s\<lparr>trace := trace s @ [Log (LogScenario n)]\<rparr>) = (Inl err, s2) \<and>
    runScenarios E specPath dir (scenario # rest) (pa, fa) s =
      runScenarios E specPath dir rest (pa, Suc fa)
        \<lparr>world = w3,
         trace = trace s2 @
           [Call (PageScreenshot (path_join E [dir, screenshotName E specPath n]) True) None,
            Log (LogFailed err),
            Log (LogScreenshot (path_join E [dir, screenshotName E specPath n]))]\<rparr>)
   \<and>
   (getProp scenario ''name'' = Inr (Str n) \<and>
    getProp scenario ''steps'' = Inr (Arr (pre @ bad # post)) \<and>
    simple_runSteps E pre (s\<lparr>trace := trace s @ [Log (LogScenario n)]\<rparr>) = (Inr (), t1) \<and>
    simple_executeStep E bad t1 = (Inl err', t2)
    \<longrightarrow>
    simple_runSteps E (pre @ bad # post) (s\<lparr>trace := trace s @ [Log (LogScenario n)]\<rparr>)
      = (Inl err', t2) \<and>
    simple_runScenarios E (scenario # rest) (pa, fa) s =
      simple_runScenarios E rest (pa, Suc fa) (t2\<lparr>trace := trace t2 @ [Log (LogFailed err')]\<rparr>))"
proof (intro conjI impI)
  assume h: "getProp scenario ''name'' = Inr (Str n) \<and>
    getProp scenario ''steps'' = Inr (Arr (pre @ bad # post)) \<and>
    runSteps E pre (s\<lparr>trace := trace s @ [Log (LogScenario n)]\<rparr>) = (Inr (), s1) \<and>
    executeStep E bad s1 = (Inl err, s2) \<and>
    perform E (PageScreenshot (path_join E [dir, screenshotName E specPath n]) True) (world s2)
      = (None, w3)"
  then have halts: "runSteps E (pre @ bad # post) (s\<lparr>trace := trace s @ [Log (LogScenario n)]\<rparr>)
      = (Inl err, s2)"
    by (blast intro: runSteps_halts)
  then show "runSteps E (pre @ bad # post) (s\<lparr>trace := trace s @ [Log (LogScenario n)]\<rparr>)
      = (Inl err, s2)" .
  from h halts have "trySteps E scenario (s\<lparr>trace := trace s @ [Log (LogScenario n)]\<rparr>)
      = (Inl err, s2)"
    by (blast intro: trySteps_fails)
  from runScenario_failed [OF _ this] h
  have "runScenario E specPath dir scenario s =
      (Inr False,
       \<lparr>world = w3,
        trace = trace s2 @
          [Call (PageScreenshot (path_join E [dir, screenshotName E specPath n]) True) None,
           Log (LogFailed err),
           Log (LogScreenshot (path_join E [dir, screenshotName E specPath n]))]\<rparr>)"
    by fastforce
  then show "runScenarios E specPath dir (scenario # rest) (pa, fa) s =
      runScenarios E specPath dir rest (pa, Suc fa)
        \<lparr>world = w3,
         trace = trace s2 @
           [Call (PageScreenshot (path_join E [dir, screenshotName E specPath n]) True) None,
            Log (LogFailed err),
            Log (LogScreenshot (path_join E [dir, screenshotName E specPath n]))]\<rparr>"
    by (simp add: bnd_def)
next
  assume h: "getProp scenario ''name'' = Inr (Str n) \<and>
    getProp scenario ''steps'' = Inr (Arr (pre @ bad # post)) \<and>
    simple_runSteps E pre (s\<lparr>trace := trace s @ [Log (LogScenario n)]\<rparr>) = (Inr (), t1) \<and>
    simple_executeStep E bad t1 = (Inl err', t2)"
  then have halts: "simple_runSteps E (pre @ bad # post)
      (s\<lparr>trace := trace s @ [Log (LogScenario n)]\<rparr>) = (Inl err', t2)"
    by (blast intro: simple_runSteps_halts)
  then show "simple_runSteps E (pre @ bad # post)
      (s\<lparr>trace := trace s @ [Log (LogScenario n)]\<rparr>) = (Inl err', t2)" .
  from h halts have "simple_trySteps E scenario (s\<lparr>trace := trace s @ [Log (LogScenario n)]\<rparr>)
      = (Inl err', t2)"
    by (blast intro: simple_trySteps_fails)
  from simple_runScenario_failed [OF _ this] h
  have "simple_runScenario E scenario s = (Inr False, t2\<lparr>trace := trace t2 @ [Log (LogFailed err')]\<rparr>)"
    by blast
  then show "simple_runScenarios E (scenario # rest) (pa, fa) s =
      simple_runScenarios E rest (pa, Suc fa) (t2\<lparr>trace := trace t2 @ [Log (LogFailed err')]\<rparr>)"
    by (simp add: bnd_def)
qed

lemma hyphen_not_space: "\<not> isSpace CHR ''-''"
  by (simp add: isSpace_def)

lemma replaceSpaces_no_space: "list_all (\<lambda>c. \<not> isSpace c) (replaceSpaces n)"
  by (induction n rule: replaceSpaces.induct) (simp_all add: hyphen_not_space)

lemma toLowerChar_shape: "\<not> isSpace c \<Longrightarrow> \<not> isSpace (toLowerChar c) \<and> \<not> isUpper (toLowerChar c)"
  by (auto simp: isSpace_def isUpper_def toLowerChar_def Let_def)

text \<open>The two characters of U+00DC and of the no-break space, as JavaScript treats them.\<close>

lemma beyond_ascii:
  "toLowerCase (replaceSpaces [CHR 0xDC, CHR ''b'', CHR 0xA0, CHR ''U'']) =
     [CHR 0xFC, CHR ''b'', CHR ''-'', CHR ''u'']"
  by code_simp

lemma slug_shape: "list_all (\<lambda>c. \<not> isSpace c \<and> \<not> isUpper c) (toLowerCase (replaceSpaces n))"
proof -
  have "list_all (\<lambda>c. \<not> isSpace c) xs \<Longrightarrow>
        list_all (\<lambda>c. \<not> isSpace c \<and> \<not> isUpper c) (map toLowerChar xs)" for xs
    by (induction xs) (simp_all add: toLowerChar_shape)
  from this [OF replaceSpaces_no_space] show ?thesis by (simp add: toLowerCase_def)
qed

text \<open>
  C3. What the status-aware runner does when the page crashes in the first step of a
  scenario: the step raises, the screenshot of the \<^verbatim>\<open>catch\<close> block is rejected as well,
  and that second error leaves \<^verbatim>\<open>runSpec\<close>. The scenario is not recorded as a failure
  (no result is returned at all), the second scenario is never started, and the browser
  stays open. On the same input the runner of run-spec.js, whose \<^verbatim>\<open>catch\<close> block only
  logs and counts, records the first scenario as one failure and goes on with the second.
\<close>

theorem crash_aborts_spec:
  "runSpec fx_env ''/proj/specs/crash.yaml'' fx_start =
     (Inl fx_crashed,
      \<lparr>world = \<lparr>fx_url = ''about:blank'', fx_alive = False\<rparr>,
       trace =
         [Log (LogHeader ''ACTIVE'' ''Crash''),
          Call (Launch True) None,
          Call NewPage None,
          Log (LogScenario ''first''),
          Log (LogStep ''goto'' (Str ''chrome://crash'')),
          Call (Goto (Str ''chrome://crash'')) (Some fx_crashed),
          Call (PageScreenshot ''/proj/screenshots/crash-first.png'' True) (Some fx_crashed)]\<rparr>) \<and>
   simple_runSpec fx_env ''/proj/specs/crash.yaml'' fx_start =
     (Inr False,
      \<lparr>world = \<lparr>fx_url = ''about:blank'', fx_alive = False\<rparr>,
       trace =
         [Log (LogRunning ''Crash''),
          Call (Launch False) None,
          Call NewPage None,
          Log (LogScenario ''first''),
          Log (LogStep ''goto'' (Str ''chrome://crash'')),
          Call (Goto (Str ''chrome://crash'')) (Some fx_crashed),
          Log (LogFailed fx_crashed),
          Log (LogScenario ''second''),
          Log (LogStep ''wait'' (Num 1)),
          Call (WaitForTimeout (Num 1)) None,
          Log LogPassed,
          Call BrowserClose None,
          Log (LogResults 1 1)]\<rparr>)"
  by code_simp

text \<open>
  C9. A scenario whose name is the number 404 (\<^verbatim>\<open>name: 404\<close> in the YAML) and whose only
  step raises: the \<^verbatim>\<open>catch\<close> block calls \<^verbatim>\<open>scenario.name.replace\<close>, a number has no
  such method, and the \<^verbatim>\<open>TypeError\<close> leaves \<^verbatim>\<open>runSpec\<close> before
  \<^verbatim>\<open>page.screenshot\<close> is reached. No screenshot is requested for the failed scenario,
  although the line that announces the scenario has written its name as \<^verbatim>\<open>404\<close>. The
  same scenario with the string \<^verbatim>\<open>'404'\<close> for a name gets its full-page screenshot at
  \<^verbatim>\<open>/proj/screenshots/numbered-404.png\<close>.
\<close>

theorem numeric_name_no_screenshot:
  "runSpec fx_env ''/proj/specs/numbered.yaml'' fx_start =
     (Inl TypeError,
      \<lparr>world = \<lparr>fx_url = ''about:blank'', fx_alive = True\<rparr>,
       trace =
         [Log (LogHeader ''ACTIVE'' ''Numbered''),
          Call (Launch True) None,
          Call NewPage None,
          Log (LogScenario ''404''),
          Log (LogStep ''foo'' (Str ''bar''))]\<rparr>) \<and>
   runScenario fx_env ''/proj/specs/numbered.yaml''
       (screenshotDir fx_env ''/proj/specs/numbered.yaml'')
       (Obj [(''name'', Str ''404''), (''steps'', Arr [Obj [(''foo'', Str ''bar'')]])])
       \<lparr>world = \<lparr>fx_url = ''about:blank'', fx_alive = True\<rparr>, trace = []\<rparr> =
     (Inr False,
      \<lparr>world = \<lparr>fx_url = ''about:blank'', fx_alive = True\<rparr>,
       trace =
         [Log (LogScenario ''404''),
          Log (LogStep ''foo'' (Str ''bar'')),
          Call (PageScreenshot ''/proj/screenshots/numbered-404.png'' True) None,
          Log (LogFailed (Error ''Unknown action: foo'')),
          Log (LogScreenshot ''/proj/screenshots/numbered-404.png'')]\<rparr>)"
  by code_simp

text \<open>
  Scenarios whose name is a string: when the \<^verbatim>\<open>try\<close> block of a scenario whose name
  is the string \<open>n\<close> raises, the next thing \<^verbatim>\<open>runSpec\<close> does is to ask the page for
  a full-page screenshot
  (\<^verbatim>\<open>fullPage: true\<close>) at the path that joins the spec's screenshots directory with the
  file name. The directory is \<^verbatim>\<open>path.join(path.dirname(specPath), '..', 'screenshots')\<close>,
  a function of the spec's path alone; the file name is the base name of the spec file
  without \<^verbatim>\<open>.yaml\<close>, a hyphen, the scenario name with every run of white space replaced
  by one hyphen and then lower-cased, and \<^verbatim>\<open>.png\<close>; the scenario part has no white space
  and no capital letter left. If the engine takes the screenshot the scenario is logged
  as failed with that path and counted; if the engine rejects the call, its error leaves
  the scenario loop.
\<close>

theorem failure_screenshot:
  assumes "getProp scenario ''name'' = Inr (Str n)"
    and "trySteps E scenario (s\<lparr>trace := trace s @ [Log (LogScenario n)]\<rparr>) = (Inl err, s1)"
    and "perform E
           (PageScreenshot (path_join E [screenshotDir E specPath, screenshotName E specPath n]) True)
           (world s1) = (out, w2)"
  shows
    "runScenario E specPath (screenshotDir E specPath) scenario s =
       (case out of
          None \<Rightarrow>
            (Inr False,
             \<lparr>world = w2,
              trace = trace s1 @
                [Call (PageScreenshot
                         (path_join E [screenshotDir E specPath, screenshotName E specPath n]) True)
                   None,
                 Log (LogFailed err),
                 Log (LogScreenshot
                        (path_join E [screenshotDir E specPath, screenshotName E specPath n]))]\<rparr>)
        | Some e \<Rightarrow>
            (Inl e,
             \<lparr>world = w2,
              trace = trace s1 @
                [Call (PageScreenshot
                         (path_join E [screenshotDir E specPath, screenshotName E specPath n]) True)
                   (Some e)]\<rparr>)) \<and>
     screenshotDir E specPath = path_join E [path_dirname E specPath, ''..'', ''screenshots''] \<and>
     screenshotName E specPath n =
       path_basename E specPath ''.yaml'' @ ''-'' @ toLowerCase (replaceSpaces n) @ ''.png'' \<and>
     list_all (\<lambda>c. \<not> isSpace c \<and> \<not> isUpper c) (toLowerCase (replaceSpaces n))"
  using runScenario_failed [OF assms] slug_shape [of n]
  by (simp add: screenshotDir_def screenshotName_def)

theorem failure_screenshot_witness:
  "getProp fx_wrong ''name'' = Inr (Str ''Wrong Case'') \<and>
   trySteps fx_env fx_wrong (fx_page\<lparr>trace := trace fx_page @ [Log (LogScenario ''Wrong Case'')]\<rparr>) =
     (Inl (Error ''URL \"https://x.test/dashboard?tab=1\" does not contain \"/Dashboard\"''),
      \<lparr>world = \<lparr>fx_url = ''https://x.test/dashboard?tab=1'', fx_alive = True\<rparr>,
       trace =
         [Log (LogScenario ''Wrong Case''),
          Log (LogStep ''goto'' (Str ''https://x.test/dashboard?tab=1'')),
          Call (Goto (Str ''https://x.test/dashboard?tab=1'')) None,
          Log (LogStep ''assert_url'' (Str ''/Dashboard''))]\<rparr>) \<and>
   path_join fx_env
     [screenshotDir fx_env ''/proj/specs/login.yaml'',
      screenshotName fx_env ''/proj/specs/login.yaml'' ''Wrong Case''] =
     ''/proj/screenshots/login-wrong-case.png'' \<and>
   runScenario fx_env ''/proj/specs/login.yaml'' (screenshotDir fx_env ''/proj/specs/login.yaml'')
       fx_wrong fx_page =
     (Inr False,
      \<lparr>world = \<lparr>fx_url = ''https://x.test/dashboard?tab=1'', fx_alive = True\<rparr>,
       trace =
         [Log (LogScenario ''Wrong Case''),
          Log (LogStep ''goto'' (Str ''https://x.test/dashboard?tab=1'')),
          Call (Goto (Str ''https://x.test/dashboard?tab=1'')) None,
          Log (LogStep ''assert_url'' (Str ''/Dashboard'')),
          Call (PageScreenshot ''/proj/screenshots/login-wrong-case.png'' True) None,
          Log (LogFailed
                 (Error ''URL \"https://x.test/dashboard?tab=1\" does not contain \"/Dashboard\"'')),
          Log (LogScreenshot ''/proj/screenshots/login-wrong-case.png'')]\<rparr>)"
proof -
  have h1: "getProp fx_wrong ''name'' = Inr (Str ''Wrong Case'')"
    by code_simp
  have h2: "trySteps fx_env fx_wrong
       (fx_page\<lparr>trace := trace fx_page @ [Log (LogScenario ''Wrong Case'')]\<rparr>) =
     (Inl (Error ''URL \"https://x.test/dashboard?tab=1\" does not contain \"/Dashboard\"''),
      \<lparr>world = \<lparr>fx_url = ''https://x.test/dashboard?tab=1'', fx_alive = True\<rparr>,
       trace =
         [Log (LogScenario ''Wrong Case''),
          Log (LogStep ''goto'' (Str ''https://x.test/dashboard?tab=1'')),
          Call (Goto (Str ''https://x.test/dashboard?tab=1'')) None,
          Log (LogStep ''assert_url'' (Str ''/Dashboard''))]\<rparr>)"
    by code_simp
  have p: "path_join fx_env
     [screenshotDir fx_env ''/proj/specs/login.yaml'',
      screenshotName fx_env ''/proj/specs/login.yaml'' ''Wrong Case''] =
     ''/proj/screenshots/login-wrong-case.png''"
    by code_simp
  have h3: "perform fx_env
       (PageScreenshot (path_join fx_env
          [screenshotDir fx_env ''/proj/specs/login.yaml'',
           screenshotName fx_env ''/proj/specs/login.yaml'' ''Wrong Case'']) True)
       (world \<lparr>world = \<lparr>fx_url = ''https://x.test/dashboard?tab=1'', fx_alive = True\<rparr>,
          trace =
            [Log (LogScenario ''Wrong Case''),
             Log (LogStep ''goto'' (Str ''https://x.test/dashboard?tab=1'')),
             Call (Goto (Str ''https://x.test/dashboard?tab=1'')) None,
             Log (LogStep ''assert_url'' (Str ''/Dashboard''))]\<rparr>) =
     (None, \<lparr>fx_url = ''https://x.test/dashboard?tab=1'', fx_alive = True\<rparr>)"
    by (simp add: fx_env_def)
  have r: "runScenario fx_env ''/proj/specs/login.yaml''
       (screenshotDir fx_env ''/proj/specs/login.yaml'') fx_wrong fx_page =
     (Inr False,
      \<lparr>world = \<lparr>fx_url = ''https://x.test/dashboard?tab=1'', fx_alive = True\<rparr>,
       trace =
         [Log (LogScenario ''Wrong Case''),
          Log (LogStep ''goto'' (Str ''https://x.test/dashboard?tab=1'')),
          Call (Goto (Str ''https://x.test/dashboard?tab=1'')) None,
          Log (LogStep ''assert_url'' (Str ''/Dashboard'')),
          Call (PageScreenshot ''/proj/screenshots/login-wrong-case.png'' True) None,
          Log (LogFailed
                 (Error ''URL \"https://x.test/dashboard?tab=1\" does not contain \"/Dashboard\"'')),
          Log (LogScreenshot ''/proj/screenshots/login-wrong-case.png'')]\<rparr>)"
    using failure_screenshot [OF h1 h2 h3, THEN conjunct1, unfolded p] by simp
  show ?thesis
    by (intro conjI h1 h2 p r)
qed

section \<open>One browser session per spec\<close>

lemma quiet_filters:
  "list_all quiet evs \<Longrightarrow> filter opened evs = [] \<and> filter closed evs = []"
  by (induction evs) (auto simp: quiet_def)

lemma emits_quiet_prefix:
  assumes "keeps quiet m"
    and "\<And>x. emits (f x) Q"
    and "\<And>e evs. list_all quiet evs \<Longrightarrow> Q (Inl e) evs"
    and "\<And>r e1 e2. list_all quiet e1 \<Longrightarrow> Q r e2 \<Longrightarrow> Q r (e1 @ e2)"
  shows "emits (bnd m f) Q"
  using assms(1) [unfolded keeps_def] assms(2)
  by (rule emits_bnd) (use assms(3,4) in auto)

lemma afterLaunch_prefix:
  "list_all quiet evs \<Longrightarrow> afterLaunch (Inl e) evs"
  "list_all quiet e1 \<Longrightarrow> afterLaunch r e2 \<Longrightarrow> afterLaunch r (e1 @ e2)"
  by (auto simp: afterLaunch_def split: sum.splits)

lemma wholeRun_prefix:
  "list_all quiet evs \<Longrightarrow> wholeRun (Inl e) evs"
  "list_all quiet e1 \<Longrightarrow> wholeRun r e2 \<Longrightarrow> wholeRun r (e1 @ e2)"
  by (auto simp: wholeRun_def quiet_filters split: sum.splits)

lemma emits_close: "emits (bnd (do_call E BrowserClose) (\<lambda>_. ret r)) afterLaunch"
  by (auto simp: emits_def bnd_def do_call_def ret_def afterLaunch_def split: prod.splits option.splits)

lemma emits_launch:
  assumes "\<And>x. emits (f x) afterLaunch"
  shows "emits (bnd (do_call E (Launch h)) f) wholeRun"
proof (rule emits_bnd [where
      ?Q1.0 = "\<lambda>r evs. case r of Inl e \<Rightarrow> list_all quiet evs | Inr x \<Rightarrow> evs = [Call (Launch h) None]"
      and ?Q2.0 = "\<lambda>x. afterLaunch"])
  show "emits (do_call E (Launch h))
     (\<lambda>r evs. case r of Inl e \<Rightarrow> list_all quiet evs | Inr x \<Rightarrow> evs = [Call (Launch h) None])"
    by (auto simp: emits_def do_call_def split: prod.splits option.splits)
  show "\<And>x. emits (f x) afterLaunch" by (rule assms)
  show "\<And>e evs. (case Inl e of Inl e \<Rightarrow> list_all quiet evs | Inr x \<Rightarrow> evs = [Call (Launch h) None])
      \<Longrightarrow> wholeRun (Inl e) evs"
    by (simp add: wholeRun_prefix)
  show "\<And>x r e1 e2. (case Inr x of Inl e \<Rightarrow> list_all quiet e1 | Inr x \<Rightarrow> e1 = [Call (Launch h) None])
      \<Longrightarrow> afterLaunch r e2 \<Longrightarrow> wholeRun r (e1 @ e2)"
    by (auto simp: afterLaunch_def wholeRun_def quiet_filters split: sum.splits)
qed

lemma quiet_stage:
  "keeps quiet m \<Longrightarrow> (\<And>x. emits (f x) afterLaunch) \<Longrightarrow> emits (bnd m f) afterLaunch"
  by (erule emits_quiet_prefix) (simp_all add: afterLaunch_prefix)

lemma quiet_stage0:
  "keeps quiet m \<Longrightarrow> (\<And>x. emits (f x) wholeRun) \<Longrightarrow> emits (bnd m f) wholeRun"
  by (erule emits_quiet_prefix) (simp_all add: wholeRun_prefix)

lemma emits_runSpec: "emits (runSpec E p) wholeRun"
  unfolding runSpec_def
  apply (rule quiet_stage0, rule keeps_basic)
  apply (rule quiet_stage0, rule keeps_basic)
  apply (rule quiet_stage0, rule keeps_basic)
  apply (rule quiet_stage0, rule keeps_basic)
  apply (rule quiet_stage0, rule keeps_basic)
  apply (rule quiet_stage0, rule keeps_log, simp)
  apply (rule emits_launch)
  apply (rule quiet_stage, rule keeps_call, simp)
  apply (rule quiet_stage, rule keeps_ensureDir, simp)
  apply (rule quiet_stage, rule keeps_basic)
  apply (rule quiet_stage, rule keeps_basic)
  apply (rule quiet_stage, rule keeps_runScenarios)
  apply (rule emits_close)
  done

text \<open>
  C5 (as amended). A spec run that returns a result has opened exactly one browser session
  and closed it exactly once, as the last thing it did, after all its scenarios. A spec
  run that raises an error has opened at most one session (none when the error comes from
  loading or parsing, which precede the launch) and has closed none: there is no
  \<^verbatim>\<open>finally\<close> around \<^verbatim>\<open>browser.close()\<close>.
\<close>

theorem session_opened_and_closed:
  "(runSpec E p s = (Inr r, s') \<longrightarrow>
      (\<exists>evs. trace s' = trace s @ evs @ [Call BrowserClose None] \<and>
         length (filter opened evs) = 1 \<and> filter closed evs = [])) \<and>
   (runSpec E p s = (Inl e, s') \<longrightarrow>
      (\<exists>evs. trace s' = trace s @ evs \<and>
         length (filter opened evs) \<le> 1 \<and> filter closed evs = []))"
proof (intro conjI impI)
  assume "runSpec E p s = (Inr r, s')"
  from emitsD [OF emits_runSpec this]
  show "\<exists>evs. trace s' = trace s @ evs @ [Call BrowserClose None] \<and>
         length (filter opened evs) = 1 \<and> filter closed evs = []"
    by (auto simp: wholeRun_def)
next
  assume "runSpec E p s = (Inl e, s')"
  from emitsD [OF emits_runSpec this]
  show "\<exists>evs. trace s' = trace s @ evs \<and>
         length (filter opened evs) \<le> 1 \<and> filter closed evs = []"
    by (auto simp: wholeRun_def)
qed

theorem session_opened_and_closed_witness:
  "fst (runSpec fx_env ''/proj/specs/login.yaml'' fx_start) =
     Inr \<lparr>r_passed = 1, r_failed = 1, r_status = ''active''\<rparr> \<and>
   (\<exists>evs. trace (snd (runSpec fx_env ''/proj/specs/login.yaml'' fx_start)) =
            trace fx_start @ evs @ [Call BrowserClose None] \<and>
          length (filter opened evs) = 1 \<and> filter closed evs = []) \<and>
   fst (runSpec fx_env ''/proj/specs/crash.yaml'' fx_start) = Inl fx_crashed \<and>
   (\<exists>evs. trace (snd (runSpec fx_env ''/proj/specs/crash.yaml'' fx_start)) = trace fx_start @ evs \<and>
          length (filter opened evs) \<le> 1 \<and> filter closed evs = [])"
proof -
  have a: "fst (runSpec fx_env ''/proj/specs/login.yaml'' fx_start) =
     Inr \<lparr>r_passed = 1, r_failed = 1, r_status = ''active''\<rparr>"
    by code_simp
  then have a': "runSpec fx_env ''/proj/specs/login.yaml'' fx_start =
     (Inr \<lparr>r_passed = 1, r_failed = 1, r_status = ''active''\<rparr>,
      snd (runSpec fx_env ''/proj/specs/login.yaml'' fx_start))"
    by (simp add: prod_eq_iff)
  have b: "fst (runSpec fx_env ''/proj/specs/crash.yaml'' fx_start) = Inl fx_crashed"
    by code_simp
  then have b': "runSpec fx_env ''/proj/specs/crash.yaml'' fx_start =
     (Inl fx_crashed, snd (runSpec fx_env ''/proj/specs/crash.yaml'' fx_start))"
    by (simp add: prod_eq_iff)
  from session_opened_and_closed [THEN conjunct1, THEN mp, OF a']
    session_opened_and_closed [THEN conjunct2, THEN mp, OF b'] a b
  show ?thesis by blast
qed

text \<open>The claim as stated fails on a page that crashes: one session opened, none closed.\<close>

theorem session_left_open_counterexample:
  "fst (runSpec fx_env ''/proj/specs/crash.yaml'' fx_start) = Inl fx_crashed \<and>
   length (filter opened (trace (snd (runSpec fx_env ''/proj/specs/crash.yaml'' fx_start)))) = 1 \<and>
   length (filter closed (trace (snd (runSpec fx_env ''/proj/specs/crash.yaml'' fx_start)))) = 0"
  by code_simp

section \<open>The loop over the spec files and the exit code\<close>

lemma processSpec_cases:
  "processSpec E f t s =
     (case runSpec E f s of
        (Inl err, s') \<Rightarrow>
          (draftFailure t, s'\<lparr>trace := trace s' @ [Log (LogErrorRunning f err)]\<rparr>)
      | (Inr r, s') \<Rightarrow>
          (case addResult t r of
             Inl err \<Rightarrow>
               (draftFailure t, s'\<lparr>trace := trace s' @ [Log (LogErrorRunning f err)]\<rparr>)
           | Inr t' \<Rightarrow> (t', s')))"
  by (simp add: processSpec_def bnd_def lift_def split: prod.splits sum.splits)

lemma processSpec_active:
  "failed (active (buckets (fst (processSpec E f t s)))) =
     failed (active (buckets t)) + activeFailed (fst (runSpec E f s))"
  by (simp add: processSpec_cases addResult_def addCounts_def draftFailure_def
      split: prod.splits sum.splits)


lemma mainLoop_active:
  "failed (active (buckets (fst (mainLoop E fs t s)))) =
     failed (active (buckets t)) + sum_list (map activeFailed (outcomes E fs t s))"
proof (induction fs arbitrary: t s)
  case Nil
  then show ?case by simp
next
  case (Cons f fs)
  obtain t' s' where p: "processSpec E f t s = (t', s')" by (cases "processSpec E f t s")
  from processSpec_active [of E f t s] p
  have "failed (active (buckets t')) =
      failed (active (buckets t)) + activeFailed (fst (runSpec E f s))" by simp
  with Cons.IH [of t' s'] p show ?case by simp
qed


lemma activeFailed_pos:
  "0 < sum_list (map activeFailed outs) \<longleftrightarrow>
     (\<exists>r. Inr r \<in> set outs \<and> r_status r = ''active'' \<and> 0 < r_failed r)"
proof (induction outs)
  case Nil
  then show ?case by simp
next
  case (Cons a outs)
  show ?case
  proof (cases a)
    case (Inl e)
    with Cons show ?thesis by auto
  next
    case (Inr r)
    with Cons show ?thesis by auto
  qed
qed

lemma main_exit:
  "args \<noteq> [] \<Longrightarrow> fst (main E args s) = (if 0 < failed (active (summary E args s)) then 1 else 0)"
  by (simp add: main_def summary_def exitCode_def split: prod.splits)

lemma summary_active:
  "failed (active (summary E args s)) =
     sum_list (map activeFailed (outcomes E (map (path_resolve E) args) startTally s))"
  using mainLoop_active [of E "map (path_resolve E) args" startTally s]
  by (simp add: summary_def startTally_def emptyResults_def)

text \<open>
  The exit policy on the results that \<^verbatim>\<open>runSpec\<close> returns: an invocation with at least
  one spec file exits with 1 when some spec whose run returned a result of status
  \<^verbatim>\<open>active\<close> counts one or more failed scenarios in that result, whatever the draft
  results are; and it exits with 0 when every returned result of status \<^verbatim>\<open>active\<close>
  counts no failed scenario, whatever has failed in draft specs.
\<close>

theorem exit_code_active_only:
  assumes "args \<noteq> []"
  shows
    "((\<exists>r. Inr r \<in> set (outcomes E (map (path_resolve E) args) startTally s) \<and>
           r_status r = ''active'' \<and> 0 < r_failed r)
        \<longrightarrow> fst (main E args s) = 1) \<and>
     ((\<forall>r. Inr r \<in> set (outcomes E (map (path_resolve E) args) startTally s) \<and>
           r_status r = ''active'' \<longrightarrow> r_failed r = 0)
        \<longrightarrow> fst (main E args s) = 0)"
  using main_exit [OF assms, of E s] summary_active [of E args s]
    activeFailed_pos [of "outcomes E (map (path_resolve E) args) startTally s"]
  by auto

theorem exit_code_active_only_witness:
  "[''specs/login.yaml'', ''specs/missing.yaml'', ''specs/reset.yaml''] \<noteq> [] \<and>
   outcomes fx_env
       (map (path_resolve fx_env) [''specs/login.yaml'', ''specs/missing.yaml'', ''specs/reset.yaml''])
       startTally fx_start =
     [Inr \<lparr>r_passed = 1, r_failed = 1, r_status = ''active''\<rparr>,
      Inl (External ''ENOENT: no such file or directory''),
      Inr \<lparr>r_passed = 0, r_failed = 1, r_status = ''draft''\<rparr>] \<and>
   fst (main fx_env [''specs/login.yaml'', ''specs/missing.yaml'', ''specs/reset.yaml''] fx_start) = 1 \<and>
   [''specs/reset.yaml'', ''specs/missing.yaml''] \<noteq> [] \<and>
   outcomes fx_env (map (path_resolve fx_env) [''specs/reset.yaml'', ''specs/missing.yaml''])
       startTally fx_start =
     [Inr \<lparr>r_passed = 0, r_failed = 1, r_status = ''draft''\<rparr>,
      Inl (External ''ENOENT: no such file or directory'')] \<and>
   fst (main fx_env [''specs/reset.yaml'', ''specs/missing.yaml''] fx_start) = 0"
proof -
  have n1: "[''specs/login.yaml'', ''specs/missing.yaml'', ''specs/reset.yaml''] \<noteq> []" by simp
  have n2: "[''specs/reset.yaml'', ''specs/missing.yaml''] \<noteq> []" by simp
  have o1: "outcomes fx_env
       (map (path_resolve fx_env) [''specs/login.yaml'', ''specs/missing.yaml'', ''specs/reset.yaml''])
       startTally fx_start =
     [Inr \<lparr>r_passed = 1, r_failed = 1, r_status = ''active''\<rparr>,
      Inl (External ''ENOENT: no such file or directory''),
      Inr \<lparr>r_passed = 0, r_failed = 1, r_status = ''draft''\<rparr>]"
    by code_simp
  have o2: "outcomes fx_env (map (path_resolve fx_env) [''specs/reset.yaml'', ''specs/missing.yaml''])
       startTally fx_start =
     [Inr \<lparr>r_passed = 0, r_failed = 1, r_status = ''draft''\<rparr>,
      Inl (External ''ENOENT: no such file or directory'')]"
    by code_simp
  have e1: "\<exists>r. Inr r \<in> set (outcomes fx_env
       (map (path_resolve fx_env) [''specs/login.yaml'', ''specs/missing.yaml'', ''specs/reset.yaml''])
       startTally fx_start) \<and> r_status r = ''active'' \<and> 0 < r_failed r"
    unfolding o1 by (rule exI [of _ "\<lparr>r_passed = 1, r_failed = 1, r_status = ''active''\<rparr>"]) simp
  have e2: "\<forall>r. Inr r \<in> set (outcomes fx_env
       (map (path_resolve fx_env) [''specs/reset.yaml'', ''specs/missing.yaml''])
       startTally fx_start) \<and> r_status r = ''active'' \<longrightarrow> r_failed r = 0"
    unfolding o2 by auto
  from exit_code_active_only [OF n1, of fx_env fx_start, THEN conjunct1, THEN mp, OF e1]
    exit_code_active_only [OF n2, of fx_env fx_start, THEN conjunct2, THEN mp, OF e2]
    n1 n2 o1 o2
  show ?thesis by blast
qed

text \<open>
  C1. Two active specs whose first scenario fails, run by \<^verbatim>\<open>main\<close>. In the first the
  name of the scenario is the number 404, in the second the page crashes in the failing
  step: in both an error raised inside the \<^verbatim>\<open>catch\<close> block of the scenario loop, before
  \<^verbatim>\<open>failed++\<close>, leaves \<^verbatim>\<open>runSpec\<close>; \<^verbatim>\<open>main\<close> counts one draft failure for the
  file, the active bucket stays at no failure, and the exit code is 0 where an active
  spec has a failed scenario. The runner of run-spec.js exits with 1 on either.
\<close>

theorem aborted_active_spec_exits_zero:
  "getProp fx_numbered ''status'' = Inr (Str ''active'') \<and>
   main fx_env [''specs/numbered.yaml''] fx_start =
     (0,
      \<lparr>world = \<lparr>fx_url = ''about:blank'', fx_alive = True\<rparr>,
       trace =
         [Log (LogHeader ''ACTIVE'' ''Numbered''),
          Call (Launch True) None,
          Call NewPage None,
          Log (LogScenario ''404''),
          Log (LogStep ''foo'' (Str ''bar'')),
          Log (LogErrorRunning ''/proj/specs/numbered.yaml'' TypeError),
          Log (LogSummary
                 \<lparr>active = \<lparr>passed = 0, failed = 0\<rparr>, draft = \<lparr>passed = 0, failed = 1\<rparr>\<rparr>),
          Log LogDraftPending]\<rparr>) \<and>
   fst (simple_main fx_env [''specs/numbered.yaml''] fx_start) = 1 \<and>
   getProp fx_crash ''status'' = Inr (Str ''active'') \<and>
   main fx_env [''specs/crash.yaml''] fx_start =
     (0,
      \<lparr>world = \<lparr>fx_url = ''about:blank'', fx_alive = False\<rparr>,
       trace =
         [Log (LogHeader ''ACTIVE'' ''Crash''),
          Call (Launch True) None,
          Call NewPage None,
          Log (LogScenario ''first''),
          Log (LogStep ''goto'' (Str ''chrome://crash'')),
          Call (Goto (Str ''chrome://crash'')) (Some fx_crashed),
          Call (PageScreenshot ''/proj/screenshots/crash-first.png'' True) (Some fx_crashed),
          Log (LogErrorRunning ''/proj/specs/crash.yaml'' fx_crashed),
          Log (LogSummary
                 \<lparr>active = \<lparr>passed = 0, failed = 0\<rparr>, draft = \<lparr>passed = 0, failed = 1\<rparr>\<rparr>),
          Log LogDraftPending]\<rparr>) \<and>
   fst (simple_main fx_env [''specs/crash.yaml''] fx_start) = 1"
  by code_simp




text \<open>
  C4. When reading or parsing a spec file raises, \<^verbatim>\<open>runSpec\<close> raises that error at once,
  with no browser launched and nothing else done for the file; the loop of \<^verbatim>\<open>main\<close>
  logs the error, adds exactly one failure to the draft bucket, leaves the other three
  counters as they are, and goes on with the remaining spec files. The status the file
  declares plays no part: it is never read.
\<close>

theorem load_error_is_draft_failure:
  assumes "readParse E specFile (world s) = Inl err"
  shows
    "runSpec E specFile s = (Inl err, s) \<and>
     mainLoop E (specFile # rest) t s =
       mainLoop E rest
         (t\<lparr>buckets := (buckets t)\<lparr>draft :=
              \<lparr>passed = passed (draft (buckets t)),
               failed = failed (draft (buckets t)) + 1\<rparr>\<rparr>\<rparr>)
         (s\<lparr>trace := trace s @ [Log (LogErrorRunning specFile err)]\<rparr>)"
proof -
  have r: "runSpec E specFile s = (Inl err, s)"
    using assms by (simp add: runSpec_def bnd_def loadSpec_def)
  then have "processSpec E specFile t s =
      (draftFailure t, s\<lparr>trace := trace s @ [Log (LogErrorRunning specFile err)]\<rparr>)"
    by (simp add: processSpec_cases)
  moreover have "draftFailure t =
      t\<lparr>buckets := (buckets t)\<lparr>draft :=
           \<lparr>passed = passed (draft (buckets t)),
            failed = failed (draft (buckets t)) + 1\<rparr>\<rparr>\<rparr>"
    by (simp add: draftFailure_def)
  ultimately show ?thesis using r by simp
qed


lemma runSpec_status:
  assumes "runSpec E p s = (Inr r, s')"
  shows "\<exists>spec sv. readParse E p (world s) = Inr spec \<and> getProp spec ''status'' = Inr sv \<and>
           asString (if truthy sv then sv else Str ''draft'') = Inr (r_status r)"
  using assms unfolding runSpec_def
  apply (elim bnd_InrE)
  apply (auto simp: loadSpec_def lift_def ret_def)
  done

theorem load_error_is_draft_failure_witness:
  "readParse fx_env ''/proj/specs/missing.yaml'' (world fx_start) =
     Inl (External ''ENOENT: no such file or directory'') \<and>
   runSpec fx_env ''/proj/specs/missing.yaml'' fx_start =
     (Inl (External ''ENOENT: no such file or directory''), fx_start) \<and>
   mainLoop fx_env [''/proj/specs/missing.yaml'', ''/proj/specs/wip.yaml''] startTally fx_start =
     mainLoop fx_env [''/proj/specs/wip.yaml'']
       (startTally\<lparr>buckets := (buckets startTally)\<lparr>draft :=
          \<lparr>passed = passed (draft (buckets startTally)),
           failed = failed (draft (buckets startTally)) + 1\<rparr>\<rparr>\<rparr>)
       (fx_start\<lparr>trace := trace fx_start @
          [Log (LogErrorRunning ''/proj/specs/missing.yaml''
                  (External ''ENOENT: no such file or directory''))]\<rparr>) \<and>
   buckets (fst (mainLoop fx_env [''/proj/specs/missing.yaml'', ''/proj/specs/wip.yaml'']
                  startTally fx_start)) =
     \<lparr>active = \<lparr>passed = 0, failed = 0\<rparr>, draft = \<lparr>passed = 0, failed = 2\<rparr>\<rparr>"
proof -
  have h: "readParse fx_env ''/proj/specs/missing.yaml'' (world fx_start) =
     Inl (External ''ENOENT: no such file or directory'')"
    by code_simp
  have v: "buckets (fst (mainLoop fx_env [''/proj/specs/missing.yaml'', ''/proj/specs/wip.yaml'']
                 startTally fx_start)) =
     \<lparr>active = \<lparr>passed = 0, failed = 0\<rparr>, draft = \<lparr>passed = 0, failed = 2\<rparr>\<rparr>"
    by code_simp
  from load_error_is_draft_failure [OF h, of "[''/proj/specs/wip.yaml'']" startTally] h v
  show ?thesis by blast
qed

text \<open>
  C6 (as amended). For a spec that loads and whose run returns a result: when the status
  field is absent, or is falsy, the status of the result is \<^verbatim>\<open>draft\<close>; otherwise the
  status field is a string and the result carries it unchanged, whatever it is. In the
  aggregation, a result whose status is neither \<^verbatim>\<open>active\<close> nor \<^verbatim>\<open>draft\<close> has its own
  counts dropped: if the status names a property that objects inherit (such as
  \<^verbatim>\<open>constructor\<close>) neither bucket changes and nothing is reported, and the same
  happens for the statuses \<^verbatim>\<open>passed\<close> and \<^verbatim>\<open>failed\<close> once a result of status
  \<^verbatim>\<open>__proto__\<close> has been added; for any other status the lookup raises a
  \<^verbatim>\<open>TypeError\<close>, which is logged and counted as one draft failure.
\<close>

theorem status_default_and_unknown:
  assumes "readParse E p (world s) = Inr spec"
    and "getProp spec ''status'' = Inr sv"
    and "runSpec E p s = (Inr r, s')"
  shows
    "(\<not> truthy sv \<longrightarrow> r_status r = ''draft'') \<and>
     (truthy sv \<longrightarrow> sv = Str (r_status r)) \<and>
     (r_status r \<noteq> ''active'' \<and> r_status r \<noteq> ''draft'' \<longrightarrow>
        processSpec E p t s =
          (if r_status r \<in> set objectPrototypeKeys
           then (t\<lparr>inherited := inherited t \<or> r_status r = ''__proto__''\<rparr>, s')
           else if inherited t \<and> (r_status r = ''passed'' \<or> r_status r = ''failed'')
           then (t, s')
           else (draftFailure t,
                 s'\<lparr>trace := trace s' @ [Log (LogErrorRunning p TypeError)]\<rparr>)))"
proof -
  from runSpec_status [OF assms(3)] assms(1,2)
  have st: "asString (if truthy sv then sv else Str ''draft'') = Inr (r_status r)" by auto
  have a: "\<not> truthy sv \<longrightarrow> r_status r = ''draft''" using st by auto
  have b: "truthy sv \<longrightarrow> sv = Str (r_status r)" using st by (cases sv) (auto split: if_splits)
  have c: "r_status r \<noteq> ''active'' \<and> r_status r \<noteq> ''draft'' \<longrightarrow>
        processSpec E p t s =
          (if r_status r \<in> set objectPrototypeKeys
           then (t\<lparr>inherited := inherited t \<or> r_status r = ''__proto__''\<rparr>, s')
           else if inherited t \<and> (r_status r = ''passed'' \<or> r_status r = ''failed'')
           then (t, s')
           else (draftFailure t,
                 s'\<lparr>trace := trace s' @ [Log (LogErrorRunning p TypeError)]\<rparr>))"
    using assms(3) by (auto simp: processSpec_cases addResult_def objectPrototypeKeys_def)
  from a b c show ?thesis by blast
qed

theorem status_default_and_unknown_witness:
  "readParse fx_env ''/proj/specs/reset.yaml'' (world fx_start) = Inr fx_reset \<and>
   getProp fx_reset ''status'' = Inr Undefined \<and>
   fst (runSpec fx_env ''/proj/specs/reset.yaml'' fx_start) =
     Inr \<lparr>r_passed = 0, r_failed = 1, r_status = ''draft''\<rparr> \<and>
   readParse fx_env ''/proj/specs/odd.yaml'' (world fx_start) = Inr fx_odd \<and>
   getProp fx_odd ''status'' = Inr (Str ''constructor'') \<and>
   fst (runSpec fx_env ''/proj/specs/odd.yaml'' fx_start) =
     Inr \<lparr>r_passed = 0, r_failed = 1, r_status = ''constructor''\<rparr> \<and>
   fst (processSpec fx_env ''/proj/specs/odd.yaml'' startTally fx_start) = startTally \<and>
   readParse fx_env ''/proj/specs/wip.yaml'' (world fx_start) = Inr fx_wip \<and>
   getProp fx_wip ''status'' = Inr (Str ''wip'') \<and>
   fst (runSpec fx_env ''/proj/specs/wip.yaml'' fx_start) =
     Inr \<lparr>r_passed = 0, r_failed = 0, r_status = ''wip''\<rparr> \<and>
   fst (processSpec fx_env ''/proj/specs/wip.yaml'' startTally fx_start) =
     draftFailure startTally"
proof -
  have r1: "readParse fx_env ''/proj/specs/reset.yaml'' (world fx_start) = Inr fx_reset"
    by code_simp
  have g1: "getProp fx_reset ''status'' = Inr Undefined" by code_simp
  have f1: "fst (runSpec fx_env ''/proj/specs/reset.yaml'' fx_start) =
     Inr \<lparr>r_passed = 0, r_failed = 1, r_status = ''draft''\<rparr>"
    by code_simp
  have r2: "readParse fx_env ''/proj/specs/odd.yaml'' (world fx_start) = Inr fx_odd"
    by code_simp
  have g2: "getProp fx_odd ''status'' = Inr (Str ''constructor'')" by code_simp
  have f2: "fst (runSpec fx_env ''/proj/specs/odd.yaml'' fx_start) =
     Inr \<lparr>r_passed = 0, r_failed = 1, r_status = ''constructor''\<rparr>"
    by code_simp
  then have f2': "runSpec fx_env ''/proj/specs/odd.yaml'' fx_start =
     (Inr \<lparr>r_passed = 0, r_failed = 1, r_status = ''constructor''\<rparr>,
      snd (runSpec fx_env ''/proj/specs/odd.yaml'' fx_start))"
    by (simp add: prod_eq_iff)
  have r3: "readParse fx_env ''/proj/specs/wip.yaml'' (world fx_start) = Inr fx_wip"
    by code_simp
  have g3: "getProp fx_wip ''status'' = Inr (Str ''wip'')" by code_simp
  have f3: "fst (runSpec fx_env ''/proj/specs/wip.yaml'' fx_start) =
     Inr \<lparr>r_passed = 0, r_failed = 0, r_status = ''wip''\<rparr>"
    by code_simp
  then have f3': "runSpec fx_env ''/proj/specs/wip.yaml'' fx_start =
     (Inr \<lparr>r_passed = 0, r_failed = 0, r_status = ''wip''\<rparr>,
      snd (runSpec fx_env ''/proj/specs/wip.yaml'' fx_start))"
    by (simp add: prod_eq_iff)
  have p2: "fst (processSpec fx_env ''/proj/specs/odd.yaml'' startTally fx_start) = startTally"
    using status_default_and_unknown [OF r2 g2 f2', of startTally]
    by (simp add: objectPrototypeKeys_def startTally_def)
  have p3: "fst (processSpec fx_env ''/proj/specs/wip.yaml'' startTally fx_start) =
      draftFailure startTally"
    using status_default_and_unknown [OF r3 g3 f3', of startTally]
    by (simp add: objectPrototypeKeys_def startTally_def)
  from r1 g1 f1 r2 g2 f2 p2 r3 g3 f3 p3 show ?thesis by blast
qed

text \<open>The claim as stated fails on the status \<^verbatim>\<open>constructor\<close>: the spec runs, its
  result carries the status as it is, no error is raised, and its failed scenario is
  counted nowhere.\<close>

theorem unknown_status_counterexample:
  "getProp fx_odd ''status'' = Inr (Str ''constructor'') \<and>
   fst (runSpec fx_env ''/proj/specs/odd.yaml'' fx_start) =
     Inr \<lparr>r_passed = 0, r_failed = 1, r_status = ''constructor''\<rparr> \<and>
   fst (processSpec fx_env ''/proj/specs/odd.yaml'' startTally fx_start) = startTally \<and>
   summary fx_env [''specs/odd.yaml''] fx_start = emptyResults \<and>
   fst (main fx_env [''specs/odd.yaml''] fx_start) = 0"
  by code_simp

text \<open>A truthy status that is not a string raises before the browser is launched.\<close>

lemma nonstring_status_raises:
  assumes "readParse E p (world s) = Inr spec"
    and "getProp spec ''status'' = Inr sv"
    and "truthy sv" and "\<not> isString sv"
  shows "runSpec E p s = (Inl TypeError, s)"
  using assms by (cases sv) (simp_all add: runSpec_def bnd_def loadSpec_def lift_def)

end
